theory Spec2Isabelle
  imports Main
begin

section \<open>Strings as the renderer handles them\<close>

text \<open>
  The default renderer (\<^verbatim>\<open>src/renderer/default.renderer.ts\<close>) builds its frame from
  JavaScript strings. Here a string is a list of characters and every character takes
  one terminal column (plain text, no escape sequences). \<^verbatim>\<open>os.EOL\<close> is the line feed.
  A value that may be \<^verbatim>\<open>undefined\<close> is an \<open>option\<close>.
\<close>

definition EOL :: char where
  "EOL = CHR 0x0A"

text \<open>\<^verbatim>\<open>String.prototype.trim\<close> on ASCII text: tab, line feed, vertical tab, form feed,
  carriage return and space are removed at both ends.\<close>

definition isWhitespace :: "char \<Rightarrow> bool" where
  "isWhitespace c = (c = CHR 0x09 \<or> c = CHR 0x0A \<or> c = CHR 0x0B \<or> c = CHR 0x0C
     \<or> c = CHR 0x0D \<or> c = CHR 0x20)"

definition js_trim :: "string \<Rightarrow> string" where
  "js_trim s = rev (dropWhile isWhitespace (rev (dropWhile isWhitespace s)))"

text \<open>\<^verbatim>\<open>str.split(EOL)\<close>: the pieces between line feeds. The result is never the empty
  list, so the last case below is never taken.\<close>

fun split_EOL :: "string \<Rightarrow> string list" where
  "split_EOL [] = [[]]"
| "split_EOL (c # cs) =
     (if c = EOL then [] # split_EOL cs
      else (case split_EOL cs of
              l # ls \<Rightarrow> (c # l) # ls
            | [] \<Rightarrow> [[c]]))"

text \<open>\<^verbatim>\<open>lines.join(EOL)\<close>; the empty array joins to the empty string.\<close>

fun join_EOL :: "string list \<Rightarrow> string" where
  "join_EOL [] = []"
| "join_EOL [x] = x"
| "join_EOL (x # y # ys) = x @ EOL # join_EOL (y # ys)"

text \<open>Truthiness of a value of type \<^verbatim>\<open>string | undefined\<close>: a non-empty string.\<close>

fun truthy :: "string option \<Rightarrow> bool" where
  "truthy None = False"
| "truthy (Some s) = (s \<noteq> [])"

text \<open>Truthiness of an optional boolean option.\<close>

definition enabledOpt :: "bool option \<Rightarrow> bool" where
  "enabledOpt b = (b = Some True)"

text \<open>\<^verbatim>\<open>array.map((s, i) => f(s, i))\<close>, the index starting at \<open>i\<close>.\<close>

fun map_index :: "('a \<Rightarrow> nat \<Rightarrow> 'b) \<Rightarrow> nat \<Rightarrow> 'a list \<Rightarrow> 'b list" where
  "map_index f i [] = []"
| "map_index f i (x # xs) = f x i # map_index f (Suc i) xs"

text \<open>Decimal digits of a count, as a template literal prints it.\<close>

fun string_of_nat :: "nat \<Rightarrow> string" where
  "string_of_nat n =
     (if n < 10 then [char_of (48 + n)]
      else string_of_nat (n div 10) @ [char_of (48 + n mod 10)])"

section \<open>External collaborators\<close>

text \<open>
  The packages the renderer imports (\<^verbatim>\<open>cli-truncate\<close>, \<^verbatim>\<open>wrap-ansi\<close>,
  \<^verbatim>\<open>indent-string\<close>, \<^verbatim>\<open>chalk\<close>, \<^verbatim>\<open>figures\<close>), the terminal's column count and
  \<^verbatim>\<open>parseTaskTime\<close> are not part of the renderer. They are the fields of an environment,
  pure functions, and every function of the renderer takes the environment. One of
  them can throw: \<^verbatim>\<open>indent-string\<close> refuses a negative count with a \<^verbatim>\<open>RangeError\<close>.
  The field \<open>indentString\<close> is the package at a count that is not negative, and the
  renderer's function that can pass a negative count returns the error there.
\<close>

datatype color = Red | Green | Yellow | YellowBright | Orange | Dim

datatype figure =
  SquareSmallFilled | Pointer | PointerSmall | Tick | Warning | Cross | ArrowLeft | ArrowDown

record env =
  stdout_columns :: "int option"
  cliTruncate :: "string \<Rightarrow> int \<Rightarrow> string"
  cliWrap :: "string \<Rightarrow> int \<Rightarrow> string"
  indentString :: "string \<Rightarrow> int \<Rightarrow> string"
  chalk :: "color \<Rightarrow> string \<Rightarrow> string"
  figures :: "figure \<Rightarrow> string"
  spinner :: "string list"
  parseTaskTime :: "int option \<Rightarrow> string"

section \<open>Renderer options\<close>

text \<open>\<^verbatim>\<open>DefaultRenderer.rendererOptions\<close>: every boolean key may be absent. The number
  \<open>indentation\<close> is read from the renderer's own options only, where the constructor
  has merged the defaults in.\<close>

record rendererOptions =
  indentation :: int
  clearOutput :: "bool option"
  showSubtasks :: "bool option"
  collapse :: "bool option"
  collapseSkips :: "bool option"
  showSkipMessage :: "bool option"
  suffixSkips :: "bool option"
  collapseErrors :: "bool option"
  showErrorMessage :: "bool option"
  suffixRetries :: "bool option"
  lazy :: "bool option"
  showTimer :: "bool option"
  removeEmptyLines :: "bool option"
  formatOutput :: "string option"

definition defaultRendererOptions :: rendererOptions where
  "defaultRendererOptions = \<lparr>
     indentation = 2,
     clearOutput = Some False,
     showSubtasks = Some True,
     collapse = Some True,
     collapseSkips = Some True,
     showSkipMessage = Some True,
     suffixSkips = Some True,
     collapseErrors = Some True,
     showErrorMessage = Some True,
     suffixRetries = Some True,
     lazy = Some False,
     showTimer = Some False,
     removeEmptyLines = Some True,
     formatOutput = Some ''truncate'' \<rparr>"

section \<open>Errors\<close>

text \<open>What the renderer can throw: its own \<^verbatim>\<open>Error('Format option for the renderer is
  wrong.')\<close>, the \<^verbatim>\<open>TypeError\<close> of reading \<^verbatim>\<open>count\<close> of an absent
  \<^verbatim>\<open>message.retry\<close>, and the \<^verbatim>\<open>RangeError\<close> of \<^verbatim>\<open>indent-string\<close> for a negative
  count. A function that can throw returns \<open>error + 'a\<close>.\<close>

datatype error = FormatOptionError | TypeError | RangeError

section \<open>Line formatting\<close>

definition indentMultilineOutput :: "env \<Rightarrow> string \<Rightarrow> nat \<Rightarrow> string" where
  "indentMultilineOutput E str i =
     (if i > 0 then indentString E (js_trim str) 2 else js_trim str)"

text \<open>\<^verbatim>\<open>process.stdout.columns ? process.stdout.columns : 80\<close>, and the width left for
  a line: the terminal's columns minus the level's indentation minus 2.\<close>

definition terminalColumns :: "env \<Rightarrow> int" where
  "terminalColumns E =
     (case stdout_columns E of
        None \<Rightarrow> 80
      | Some c \<Rightarrow> if c \<noteq> 0 then c else 80)"

definition availableWidth :: "env \<Rightarrow> rendererOptions \<Rightarrow> int \<Rightarrow> int" where
  "availableWidth E opts level = terminalColumns E - level * indentation opts - 2"

text \<open>\<^verbatim>\<open>formatString\<close>; \<open>Inr None\<close> is the bare \<^verbatim>\<open>return\<close>. The last call,
  \<^verbatim>\<open>indentString(parsedStr.join(EOL), level * this.options.indentation)\<close>, throws when
  the count is negative.\<close>

definition formatString ::
  "env \<Rightarrow> rendererOptions \<Rightarrow> string \<Rightarrow> string \<Rightarrow> int \<Rightarrow> error + string option" where
  "formatString E opts str icon level =
     (if js_trim str = [] then Inr None
      else
        let str' = icon @ '' '' @ str;
            columns = availableWidth E opts level
        in case
            (if formatOutput opts = Some ''truncate'' then
               Inr (map_index (\<lambda>s i. cliTruncate E (indentMultilineOutput E s i) columns) 0
                      (split_EOL str'))
             else if formatOutput opts = Some ''wrap'' then
               Inr (map_index (\<lambda>s i. indentMultilineOutput E s i) 0
                      (split_EOL (cliWrap E str' columns)))
             else Inl FormatOptionError)
           of
             Inl e \<Rightarrow> Inl e
           | Inr parsedStr \<Rightarrow>
               let parsedStr' =
                     (if enabledOpt (removeEmptyLines opts)
                      then filter (\<lambda>s. s \<noteq> []) parsedStr else parsedStr)
               in if level * indentation opts < 0 then Inl RangeError
                  else Inr (Some (indentString E (join_EOL parsedStr')
                                    (level * indentation opts))))"

section \<open>What the text primitives promise\<close>

text \<open>
  The packages are not part of the renderer, so what is proved about widths is proved for
  every environment whose primitives keep their word on plain text: text of printable
  ASCII characters, which take one column each, and line feeds. A text fits a width when
  none of its lines is longer. Truncation leaves a printable line alone that fits a width
  of at least 2 and cuts a longer one to exactly the width; hard wrapping of plain text to
  a width of at least 1 yields plain text that fits it; indentation of plain text by a
  count \<open>n\<close> that is not negative yields plain text, adds no line, and makes no line
  longer than \<open>n\<close> more.
\<close>

definition printableChar :: "char \<Rightarrow> bool" where
  "printableChar c = (32 \<le> (of_char c :: nat) \<and> (of_char c :: nat) \<le> 126)"

definition printable :: "string \<Rightarrow> bool" where
  "printable s = list_all printableChar s"

definition plainText :: "string \<Rightarrow> bool" where
  "plainText s = list_all (\<lambda>c. c = EOL \<or> printableChar c) s"

definition fits :: "int \<Rightarrow> string \<Rightarrow> bool" where
  "fits w s = list_all (\<lambda>l. int (length l) \<le> w) (split_EOL s)"

definition truncateContract :: "env \<Rightarrow> bool" where
  "truncateContract E =
     (\<forall>s w. printable s \<longrightarrow>
        (2 \<le> w \<and> int (length s) \<le> w \<longrightarrow> cliTruncate E s w = s)
        \<and> (0 \<le> w \<and> w < int (length s) \<longrightarrow> int (length (cliTruncate E s w)) = w))"

definition wrapContract :: "env \<Rightarrow> bool" where
  "wrapContract E =
     (\<forall>s w. plainText s \<and> 1 \<le> w \<longrightarrow> plainText (cliWrap E s w) \<and> fits w (cliWrap E s w))"

definition indentContract :: "env \<Rightarrow> bool" where
  "indentContract E =
     (\<forall>s n. plainText s \<and> 0 \<le> n \<longrightarrow>
        plainText (indentString E s n)
        \<and> (EOL \<notin> set s \<longrightarrow> EOL \<notin> set (indentString E s n))
        \<and> (\<forall>w. fits w s \<longrightarrow> fits (w + n) (indentString E s n)))"

section \<open>Tasks\<close>

text \<open>
  The class \<^verbatim>\<open>Task\<close> (\<^verbatim>\<open>lib/task\<close>) is used by the renderer through its fields and
  predicates. A task is its own data and the list of its subtasks. The fields are those
  the renderer reads, with the types its own signatures give them: the title, the output,
  the error text and the skip reason are passed on as strings, each of them optional.
\<close>

datatype task_state =
  PENDING | COMPLETED | FAILED | SKIPPED | ROLLING_BACK | ROLLED_BACK | RETRYING

datatype bottomBarOption = BottomBarBool bool | BottomBarNumber int

text \<open>\<^verbatim>\<open>DefaultRenderer.rendererTaskOptions\<close>, the options of one task.\<close>

record rendererTaskOptions =
  opt_bottomBar :: "bottomBarOption option"
  opt_persistentOutput :: "bool option"
  opt_showTimer :: "bool option"

text \<open>\<^verbatim>\<open>task.message\<close>; \<open>msg_retry\<close> is the \<^verbatim>\<open>count\<close> of \<^verbatim>\<open>message.retry\<close>
  when that object is present.\<close>

record message =
  msg_error :: "string option"
  msg_skip :: "string option"
  msg_retry :: "nat option"
  msg_duration :: "int option"

record task_data =
  task_id :: string
  title :: "string option"
  state :: "task_state option"
  enabled :: bool
  prompt :: bool
  task_output :: "string option"
  message :: message
  exitOnError :: "bool option"
  taskRendererOptions :: rendererOptions
  taskOptions :: rendererTaskOptions

datatype task = Task (task_data: task_data) (subtasks: "task list")

text \<open>Modelled from the spec: the predicates of the class \<^verbatim>\<open>Task\<close>, which is not among
  the source files. A task has a title when the optional title is present (an anonymous
  task has none), it has subtasks when its list of subtasks is not empty, and each state
  predicate tests the task's state against one state of the state machine; a task that
  has not started has no state.\<close>

definition hasTitle :: "task \<Rightarrow> bool" where
  "hasTitle t = (title (task_data t) \<noteq> None)"

definition isEnabled :: "task \<Rightarrow> bool" where
  "isEnabled t = enabled (task_data t)"

definition isPrompt :: "task \<Rightarrow> bool" where
  "isPrompt t = prompt (task_data t)"

definition hasSubtasks :: "task \<Rightarrow> bool" where
  "hasSubtasks t = (subtasks t \<noteq> [])"

definition isPending :: "task \<Rightarrow> bool" where
  "isPending t = (state (task_data t) = Some PENDING)"

definition isCompleted :: "task \<Rightarrow> bool" where
  "isCompleted t = (state (task_data t) = Some COMPLETED)"

definition hasFailed :: "task \<Rightarrow> bool" where
  "hasFailed t = (state (task_data t) = Some FAILED)"

definition isSkipped :: "task \<Rightarrow> bool" where
  "isSkipped t = (state (task_data t) = Some SKIPPED)"

definition isRollingBack :: "task \<Rightarrow> bool" where
  "isRollingBack t = (state (task_data t) = Some ROLLING_BACK)"

definition hasRolledBack :: "task \<Rightarrow> bool" where
  "hasRolledBack t = (state (task_data t) = Some ROLLED_BACK)"

definition isRetrying :: "task \<Rightarrow> bool" where
  "isRetrying t = (state (task_data t) = Some RETRYING)"

section \<open>The renderer's state\<close>

text \<open>The private fields the renderer mutates. \<open>bottomBar\<close> is an object keyed by task id:
  an association list in insertion order, one entry per key. An entry of \<open>data\<close> may be
  \<^verbatim>\<open>undefined\<close>.\<close>

record bar =
  data :: "string option list"
  items :: "int option"

record rendererState =
  bottomBar :: "(string \<times> bar) list"
  promptBar :: "string option"
  spinnerPosition :: nat

definition updateBar :: "string \<Rightarrow> (bar \<Rightarrow> bar) \<Rightarrow> (string \<times> bar) list \<Rightarrow> (string \<times> bar) list" where
  "updateBar k f bb = map (\<lambda>(k', b). if k' = k then (k', f b) else (k', b)) bb"

definition deleteBar :: "string \<Rightarrow> (string \<times> bar) list \<Rightarrow> (string \<times> bar) list" where
  "deleteBar k bb = filter (\<lambda>(k', b). k' \<noteq> k) bb"

text \<open>\<^verbatim>\<open>array.filter(Boolean)\<close> on strings that may be \<^verbatim>\<open>undefined\<close>.\<close>

definition filterBoolean :: "string option list \<Rightarrow> string list" where
  "filterBoolean xs = concat (map (\<lambda>x. case x of None \<Rightarrow> [] | Some s \<Rightarrow> if s \<noteq> [] then [s] else []) xs)"

text \<open>\<^verbatim>\<open>data.slice(-items)\<close>: a negative start counts from the end, a start of zero
  (also \<^verbatim>\<open>-0\<close>, and \<^verbatim>\<open>NaN\<close> from an absent \<open>items\<close>) keeps the whole array.\<close>

definition sliceLast :: "int option \<Rightarrow> 'a list \<Rightarrow> 'a list" where
  "sliceLast n xs =
     (case n of
        None \<Rightarrow> xs
      | Some k \<Rightarrow>
          if - k < 0 then drop (nat (max (int (length xs) - k) 0)) xs
          else drop (nat (- k)) xs)"

section \<open>Options and symbols of a task\<close>

definition getTaskOptions :: "task \<Rightarrow> rendererTaskOptions" where
  "getTaskOptions t = taskOptions (task_data t)"

definition isBottomBar :: "task \<Rightarrow> bool" where
  "isBottomBar t =
     (case opt_bottomBar (getTaskOptions t) of
        Some (BottomBarNumber n) \<Rightarrow> n \<noteq> 0
      | Some (BottomBarBool b) \<Rightarrow> b \<noteq> False
      | None \<Rightarrow> False)"

definition hasPersistentOutput :: "task \<Rightarrow> bool" where
  "hasPersistentOutput t = (opt_persistentOutput (getTaskOptions t) = Some True)"

definition hasTimer :: "task \<Rightarrow> bool" where
  "hasTimer t = (opt_showTimer (getTaskOptions t) = Some True)"

text \<open>\<^verbatim>\<open>task?.rendererOptions?.[key] ?? this.options?.[key]\<close>; the key is the field.\<close>

definition getSelfOrParentOption ::
  "rendererOptions \<Rightarrow> task \<Rightarrow> (rendererOptions \<Rightarrow> 'a option) \<Rightarrow> 'a option" where
  "getSelfOrParentOption opts t key =
     (case key (taskRendererOptions (task_data t)) of
        Some v \<Rightarrow> Some v
      | None \<Rightarrow> key opts)"

definition getTaskTime :: "env \<Rightarrow> task \<Rightarrow> string" where
  "getTaskTime E t =
     chalk E Dim (''['' @ parseTaskTime E (msg_duration (message (task_data t))) @ '']'')"

text \<open>\<^verbatim>\<open>this.spinner[this.spinnerPosition]\<close>; past the end the read is \<^verbatim>\<open>undefined\<close>,
  which \<^verbatim>\<open>chalk\<close> prints by name.\<close>

definition spinnerFrame :: "env \<Rightarrow> rendererState \<Rightarrow> string" where
  "spinnerFrame E st =
     (if spinnerPosition st < length (spinner E) then spinner E ! spinnerPosition st
      else ''undefined'')"

definition getSymbol :: "env \<Rightarrow> rendererOptions \<Rightarrow> rendererState \<Rightarrow> task \<Rightarrow> bool \<Rightarrow> string" where
  "getSymbol E opts st t dat =
     (if isPending t \<and> \<not> dat then
        (if enabledOpt (lazy opts)
            \<or> (getSelfOrParentOption opts t showSubtasks \<noteq> Some False \<and> hasSubtasks t
                \<and> \<not> list_all (\<lambda>subtask. \<not> hasTitle subtask) (subtasks t))
         then chalk E Yellow (figures E Pointer)
         else chalk E YellowBright (spinnerFrame E st))
      else if isCompleted t \<and> \<not> dat then
        (if hasSubtasks t \<and> list_ex hasFailed (subtasks t)
         then chalk E Yellow (figures E Warning)
         else chalk E Green (figures E Tick))
      else if isRetrying t \<and> \<not> dat then
        (if enabledOpt (lazy opts) then chalk E Orange (figures E Warning)
         else chalk E Orange (spinnerFrame E st))
      else if isRollingBack t \<and> \<not> dat then
        (if enabledOpt (lazy opts) then chalk E Red (figures E Warning)
         else chalk E Red (spinnerFrame E st))
      else if hasRolledBack t \<and> \<not> dat then chalk E Red (figures E ArrowLeft)
      else if hasFailed t \<and> \<not> dat then
        (if hasSubtasks t then chalk E Red (figures E Pointer)
         else chalk E Red (figures E Cross))
      else if isSkipped t \<and> \<not> dat
              \<and> getSelfOrParentOption opts t collapseSkips = Some False
        then chalk E Yellow (figures E Warning)
      else if isSkipped t \<and> (dat \<or> enabledOpt (getSelfOrParentOption opts t collapseSkips))
        then chalk E Yellow (figures E ArrowDown)
      else if \<not> dat then chalk E Dim (figures E SquareSmallFilled)
      else figures E PointerSmall)"

text \<open>\<^verbatim>\<open>condition ?? true ? message + chalk.dim(` [${suffix}]`) : message\<close>\<close>

definition addSuffixToMessage :: "env \<Rightarrow> string \<Rightarrow> string \<Rightarrow> bool option \<Rightarrow> string" where
  "addSuffixToMessage E msg suffix condition =
     (if (case condition of None \<Rightarrow> True | Some b \<Rightarrow> b)
      then msg @ chalk E Dim ('' ['' @ suffix @ '']'')
      else msg)"

section \<open>Dumping a task's data\<close>

datatype dataSource = OutputData | SkipData | ErrorData

definition dumpData ::
  "env \<Rightarrow> rendererOptions \<Rightarrow> rendererState \<Rightarrow> task \<Rightarrow> int \<Rightarrow> dataSource
     \<Rightarrow> error + string option" where
  "dumpData E opts st t level source =
     (let dat = (case source of
                   OutputData \<Rightarrow> task_output (task_data t)
                 | SkipData \<Rightarrow> msg_skip (message (task_data t))
                 | ErrorData \<Rightarrow> msg_error (message (task_data t)))
      in if hasTitle t \<and> source = ErrorData \<and> dat = title (task_data t) then Inr None
         else case dat of
                Some s \<Rightarrow> formatString E opts s (getSymbol E opts st t True) (level + 1)
              | None \<Rightarrow> Inr None)"

section \<open>Rendering one task\<close>

text \<open>
  The body of the loop of \<^verbatim>\<open>multiLineRenderer\<close> is five blocks in a row. Each block is a
  function here, named after the block's comment in the source; a block returns the
  entries it appends to \<^verbatim>\<open>output\<close> (an entry may be \<^verbatim>\<open>undefined\<close>) and, when it writes
  to the renderer's fields, the new state.
\<close>

text \<open>The test that a task has been stopped by a failed sibling: some task of the list has
  failed, this one has not, its own \<^verbatim>\<open>exitOnError\<close> is not \<^verbatim>\<open>false\<close>, and it is neither
  completed nor skipped.\<close>

definition stoppedBySibling :: "task list \<Rightarrow> task \<Rightarrow> bool" where
  "stoppedBySibling tasks t =
     (list_ex hasFailed tasks \<and> \<not> hasFailed t \<and> exitOnError (task_data t) \<noteq> Some False
      \<and> \<not> (isCompleted t \<or> isSkipped t))"

text \<open>A formatted line as the one entry appended to \<^verbatim>\<open>output\<close>.\<close>

definition appendLine :: "error + string option \<Rightarrow> error + string option list" where
  "appendLine r = (case r of Inl e \<Rightarrow> Inl e | Inr x \<Rightarrow> Inr [x])"

text \<open>Current Task Title. The title is read where \<^verbatim>\<open>hasTitle\<close> holds.\<close>

definition currentTaskTitle ::
  "env \<Rightarrow> rendererOptions \<Rightarrow> rendererState \<Rightarrow> task list \<Rightarrow> task \<Rightarrow> int
     \<Rightarrow> error + string option list" where
  "currentTaskTitle E opts st tasks t level =
     (case title (task_data t) of
        None \<Rightarrow> Inr []
      | Some ttl \<Rightarrow>
          if \<not> stoppedBySibling tasks t then
            if hasFailed t \<and> enabledOpt (getSelfOrParentOption opts t collapseErrors) then
              appendLine (formatString E opts
                (case msg_error (message (task_data t)) of
                   None \<Rightarrow> ttl
                 | Some err \<Rightarrow>
                     if \<not> hasSubtasks t \<and> err \<noteq> []
                        \<and> enabledOpt (getSelfOrParentOption opts t showErrorMessage)
                     then err else ttl)
                (getSymbol E opts st t False) level)
            else if isSkipped t \<and> enabledOpt (getSelfOrParentOption opts t collapseSkips) then
              appendLine (formatString E opts
                (addSuffixToMessage E
                   (case msg_skip (message (task_data t)) of
                      None \<Rightarrow> ttl
                    | Some reason \<Rightarrow>
                        if reason \<noteq> []
                           \<and> enabledOpt (getSelfOrParentOption opts t showSkipMessage)
                        then reason else ttl)
                   ''SKIPPED'' (getSelfOrParentOption opts t suffixSkips))
                (getSymbol E opts st t False) level)
            else if isRetrying t \<and> enabledOpt (getSelfOrParentOption opts t suffixRetries) then
              (case msg_retry (message (task_data t)) of
                 None \<Rightarrow> Inl TypeError
               | Some count \<Rightarrow>
                   appendLine (formatString E opts
                     (addSuffixToMessage E ttl (''RETRYING-'' @ string_of_nat count) None)
                     (getSymbol E opts st t False) level))
            else if isCompleted t \<and> hasTitle t
                    \<and> (enabledOpt (getSelfOrParentOption opts t showTimer) \<or> hasTimer t) then
              appendLine (formatString E opts (ttl @ '' '' @ getTaskTime E t)
                (getSymbol E opts st t False) level)
            else
              appendLine (formatString E opts ttl (getSymbol E opts st t False) level)
          else
            appendLine (formatString E opts ttl (chalk E Red (figures E SquareSmallFilled)) level))"

text \<open>The error or skip message of a task without the collapse option, for a task that has
  no subtasks or whose subtasks are not shown.\<close>

definition currentTaskMessage ::
  "env \<Rightarrow> rendererOptions \<Rightarrow> rendererState \<Rightarrow> task \<Rightarrow> int \<Rightarrow> error + string option list" where
  "currentTaskMessage E opts st t level =
     (if \<not> hasSubtasks t \<or> \<not> enabledOpt (getSelfOrParentOption opts t showSubtasks) then
        if hasFailed t \<and> getSelfOrParentOption opts t collapseErrors = Some False
           \<and> (enabledOpt (getSelfOrParentOption opts t showErrorMessage)
               \<or> \<not> enabledOpt (getSelfOrParentOption opts t showSubtasks))
        then appendLine (dumpData E opts st t level ErrorData)
        else if isSkipped t \<and> getSelfOrParentOption opts t collapseSkips = Some False
           \<and> (enabledOpt (getSelfOrParentOption opts t showSkipMessage)
               \<or> \<not> enabledOpt (getSelfOrParentOption opts t showSubtasks))
        then appendLine (dumpData E opts st t level SkipData)
        else Inr []
      else Inr [])"

text \<open>The buffer created for a task that has none: no data, and the item count 1 for a
  boolean \<^verbatim>\<open>bottomBar\<close> option, the option itself otherwise.\<close>

definition newBar :: "task \<Rightarrow> bar" where
  "newBar t =
     \<lparr> data = [],
       items = (case opt_bottomBar (getTaskOptions t) of
                  Some (BottomBarBool b) \<Rightarrow> Some 1
                | Some (BottomBarNumber n) \<Rightarrow> Some n
                | None \<Rightarrow> None) \<rparr>"

text \<open>The bottom bar after a task's dumped output \<open>x\<close> has been offered to it.\<close>

definition pushBottomBar :: "task \<Rightarrow> string option \<Rightarrow> (string \<times> bar) list \<Rightarrow> (string \<times> bar) list" where
  "pushBottomBar t x bb =
     (let k = task_id (task_data t);
          bb1 = (if map_of bb k = None then bb @ [(k, newBar t)] else bb);
          present = (case map_of bb1 k of
                       None \<Rightarrow> False
                     | Some b \<Rightarrow> list_ex (\<lambda>element. element \<in> set [x]) (data b))
      in if \<not> present \<and> \<not> isSkipped t
         then updateBar k (\<lambda>b. b\<lparr>data := data b @ [x]\<rparr>) bb1
         else bb1)"

definition isActive :: "task \<Rightarrow> bool" where
  "isActive t = (isPending t \<or> isRetrying t \<or> isRollingBack t)"

text \<open>Current Task Output.\<close>

definition currentTaskOutput ::
  "env \<Rightarrow> rendererOptions \<Rightarrow> rendererState \<Rightarrow> task \<Rightarrow> int
     \<Rightarrow> error + (string option list \<times> rendererState)" where
  "currentTaskOutput E opts st t level =
     (if truthy (task_output (task_data t)) then
        if isActive t \<and> isPrompt t then
          Inr ([], st\<lparr>promptBar := task_output (task_data t)\<rparr>)
        else if isBottomBar t \<or> \<not> hasTitle t then
          (case dumpData E opts st t (- 1) OutputData of
             Inl e \<Rightarrow> Inl e
           | Inr x \<Rightarrow> Inr ([], st\<lparr>bottomBar := pushBottomBar t x (bottomBar st)\<rparr>))
        else if isActive t \<or> hasPersistentOutput t then
          (case dumpData E opts st t level OutputData of
             Inl e \<Rightarrow> Inl e
           | Inr x \<Rightarrow> Inr ([x], st))
        else Inr ([], st)
      else Inr ([], st))"

text \<open>The condition under which the subtasks of a task are rendered, and their level.\<close>

definition shouldRenderSubtasks :: "rendererOptions \<Rightarrow> task \<Rightarrow> bool" where
  "shouldRenderSubtasks opts t =
     (getSelfOrParentOption opts t showSubtasks \<noteq> Some False
      \<and> hasSubtasks t
      \<and> (isPending t
         \<or> hasFailed t
         \<or> (isCompleted t \<and> \<not> hasTitle t)
         \<or> (isCompleted t \<and> getSelfOrParentOption opts t collapse = Some False
             \<and> \<not> list_ex (\<lambda>subtask. collapse (taskRendererOptions (task_data subtask)) = Some True)
                   (subtasks t))
         \<or> list_ex (\<lambda>subtask. collapse (taskRendererOptions (task_data subtask)) = Some False)
              (subtasks t)
         \<or> list_ex hasFailed (subtasks t)
         \<or> list_ex hasRolledBack (subtasks t)))"

definition subtaskLevel :: "task \<Rightarrow> int \<Rightarrow> int" where
  "subtaskLevel t level = (if \<not> hasTitle t then level else level + 1)"

text \<open>\<^verbatim>\<open>subtaskRender?.trim() !== '' && !task.subtasks.every((subtask) => !subtask.hasTitle())\<close>\<close>

definition keepSubtaskRender :: "task \<Rightarrow> string option \<Rightarrow> bool" where
  "keepSubtaskRender t subtaskRender =
     ((case subtaskRender of None \<Rightarrow> True | Some s \<Rightarrow> js_trim s \<noteq> [])
      \<and> \<not> list_all (\<lambda>subtask. \<not> hasTitle subtask) (subtasks t))"

text \<open>After task is finished actions.\<close>

definition isSettled :: "task \<Rightarrow> bool" where
  "isSettled t = (isCompleted t \<or> hasFailed t \<or> isSkipped t \<or> hasRolledBack t)"

definition afterTaskFinished :: "task \<Rightarrow> rendererState \<Rightarrow> rendererState" where
  "afterTaskFinished t st =
     (if isSettled t then
        let st1 = st\<lparr>promptBar := None\<rparr>
        in if \<not> hasPersistentOutput t
           then st1\<lparr>bottomBar := deleteBar (task_id (task_data t)) (bottomBar st1)\<rparr>
           else st1
      else st)"

text \<open>The end of \<^verbatim>\<open>multiLineRenderer\<close>: the entries that are not empty, joined, or nothing.\<close>

definition joinOutput :: "string option list \<Rightarrow> string option" where
  "joinOutput out =
     (let out' = filterBoolean out
      in if length out' > 0 then Some (join_EOL out') else None)"

section \<open>The renderer\<close>

text \<open>
  \<^verbatim>\<open>multiLineRenderer\<close>: \<open>renderTask\<close> is the body of its loop for one task of the list
  \<open>tasks\<close>, and \<open>renderTasks\<close> is the loop over the tasks that remain, with the output
  collected so far.
\<close>

fun renderTask ::
  "env \<Rightarrow> rendererOptions \<Rightarrow> task list \<Rightarrow> int \<Rightarrow> task \<Rightarrow> rendererState
     \<Rightarrow> error + (string option list \<times> rendererState)"
and renderTasks ::
  "env \<Rightarrow> rendererOptions \<Rightarrow> task list \<Rightarrow> int \<Rightarrow> task list \<Rightarrow> rendererState
     \<Rightarrow> string option list \<Rightarrow> error + (string option \<times> rendererState)" where
  "renderTask E opts tasks level (Task d subs) st =
     (if \<not> isEnabled (Task d subs) then Inr ([], st)
      else
        case currentTaskTitle E opts st tasks (Task d subs) level of
          Inl e \<Rightarrow> Inl e
        | Inr o1 \<Rightarrow>
        (case currentTaskMessage E opts st (Task d subs) level of
          Inl e \<Rightarrow> Inl e
        | Inr o2 \<Rightarrow>
        (case currentTaskOutput E opts st (Task d subs) level of
          Inl e \<Rightarrow> Inl e
        | Inr (o3, st1) \<Rightarrow>
        (case
           (if shouldRenderSubtasks opts (Task d subs) then
              (case renderTasks E opts subs (subtaskLevel (Task d subs) level) subs st1 [] of
                 Inl e \<Rightarrow> Inl e
               | Inr (subtaskRender, st2) \<Rightarrow>
                   Inr (if keepSubtaskRender (Task d subs) subtaskRender
                        then [subtaskRender] else [], st2))
            else Inr ([], st1))
         of
           Inl e \<Rightarrow> Inl e
         | Inr (o4, st2) \<Rightarrow>
             Inr (o1 @ o2 @ o3 @ o4, afterTaskFinished (Task d subs) st2)))))"
| "renderTasks E opts tasks level [] st out = Inr (joinOutput out, st)"
| "renderTasks E opts tasks level (t # ts) st out =
     (case renderTask E opts tasks level t st of
        Inl e \<Rightarrow> Inl e
      | Inr (o', st') \<Rightarrow> renderTasks E opts tasks level ts st' (out @ o'))"

definition multiLineRenderer ::
  "env \<Rightarrow> rendererOptions \<Rightarrow> task list \<Rightarrow> int \<Rightarrow> rendererState
     \<Rightarrow> error + (string option \<times> rendererState)" where
  "multiLineRenderer E opts tasks level st = renderTasks E opts tasks level tasks st []"

text \<open>The last two blocks of the loop body for a task \<open>t\<close>, as a function of the
  entries appended so far and of the state the output block has left: the rendering of the
  subtasks, and the actions after the task is finished.\<close>

definition subtasksAndCleanup ::
  "env \<Rightarrow> rendererOptions \<Rightarrow> int \<Rightarrow> task \<Rightarrow> string option list \<Rightarrow> rendererState
     \<Rightarrow> error + (string option list \<times> rendererState)" where
  "subtasksAndCleanup E opts level t out st1 =
     (case
        (if shouldRenderSubtasks opts t then
           (case multiLineRenderer E opts (subtasks t) (subtaskLevel t level) st1 of
              Inl e \<Rightarrow> Inl e
            | Inr (subtaskRender, st2) \<Rightarrow>
                Inr (if keepSubtaskRender t subtaskRender then [subtaskRender] else [], st2))
         else Inr ([], st1))
      of
        Inl e \<Rightarrow> Inl e
      | Inr (o4, st2) \<Rightarrow> Inr (out @ o4, afterTaskFinished t st2))"

section \<open>The frame\<close>

definition renderBottomBar :: "rendererState \<Rightarrow> string option \<times> rendererState" where
  "renderBottomBar st =
     (if length (bottomBar st) > 0 then
        let bb = map (\<lambda>(k, b). (k, b\<lparr>data := sliceLast (items b) (data b)\<rparr>)) (bottomBar st)
        in (Some (join_EOL (filterBoolean (concat (map (\<lambda>(k, b). data b) bb)))),
            st\<lparr>bottomBar := bb\<rparr>)
      else (None, st))"

definition renderPrompt :: "rendererState \<Rightarrow> string option" where
  "renderPrompt st = (if truthy (promptBar st) then promptBar st else None)"

text \<open>\<^verbatim>\<open>s?.trim().length > 0\<close>\<close>

definition nonBlank :: "string option \<Rightarrow> bool" where
  "nonBlank r = (case r of None \<Rightarrow> False | Some s \<Rightarrow> length (js_trim s) > 0)"

text \<open>\<^verbatim>\<open>render.push((render.length > 0 ? EOL : '') + part)\<close> when the part is wanted and
  not blank; the first part is pushed as it is.\<close>

definition pushPart :: "bool \<Rightarrow> bool \<Rightarrow> string option \<Rightarrow> string list \<Rightarrow> string list" where
  "pushPart wanted lead part render =
     (case part of
        None \<Rightarrow> render
      | Some s \<Rightarrow>
          if wanted \<and> nonBlank part
          then render @ [(if lead \<and> length render > 0 then [EOL] else []) @ s]
          else render)"

record renderParts =
  part_tasks :: bool
  part_bottomBar :: bool
  part_prompt :: bool

text \<open>\<^verbatim>\<open>createRender\<close> for the task list and options the renderer was constructed with.\<close>

definition createRender ::
  "env \<Rightarrow> rendererOptions \<Rightarrow> task list \<Rightarrow> renderParts \<Rightarrow> rendererState
     \<Rightarrow> error + (string \<times> rendererState)" where
  "createRender E opts tasks parts st =
     (case multiLineRenderer E opts tasks 0 st of
        Inl e \<Rightarrow> Inl e
      | Inr (renderTasks', st1) \<Rightarrow>
          let (renderBottomBar', st2) = renderBottomBar st1;
              renderPrompt' = renderPrompt st2;
              r1 = pushPart (part_tasks parts) False renderTasks' [];
              r2 = pushPart (part_bottomBar parts) True renderBottomBar' r1;
              r3 = pushPart (part_prompt parts) True renderPrompt' r2
          in Inr (if length r3 > 0 then join_EOL r3 else [], st2))"

section \<open>Reference environment\<close>

text \<open>A plain-text environment for concrete runs: an 80-column terminal, colours
  switched off, ASCII stand-ins for the figures, truncation at the end with a one-column
  ellipsis mark, hard wrapping into pieces of at most the given width, and indentation of
  every line that is not blank.\<close>

definition ellipsis :: char where
  "ellipsis = CHR ''~''"

definition plain_truncate :: "string \<Rightarrow> int \<Rightarrow> string" where
  "plain_truncate s w =
     (if w < 1 then []
      else if w = 1 then [ellipsis]
      else if int (length s) \<le> w then s
      else take (nat (w - 1)) s @ [ellipsis])"

fun chop :: "nat \<Rightarrow> nat \<Rightarrow> string \<Rightarrow> string list" where
  "chop w k [] = [[]]"
| "chop w k (c # cs) =
     (if k = 0 then
        (case chop w (w - 1) cs of l # ls \<Rightarrow> [] # (c # l) # ls | [] \<Rightarrow> [[], [c]])
      else
        (case chop w (k - 1) cs of l # ls \<Rightarrow> (c # l) # ls | [] \<Rightarrow> [[c]]))"

definition plain_wrap :: "string \<Rightarrow> int \<Rightarrow> string" where
  "plain_wrap s w =
     (if w < 1 then s
      else join_EOL (concat (map (\<lambda>l. chop (nat w) (nat w) l) (split_EOL s))))"

definition plain_indent :: "string \<Rightarrow> int \<Rightarrow> string" where
  "plain_indent s n =
     join_EOL (map (\<lambda>l. if js_trim l = [] then l else replicate (nat n) CHR '' '' @ l)
       (split_EOL s))"

fun plain_figures :: "figure \<Rightarrow> string" where
  "plain_figures SquareSmallFilled = ''#''"
| "plain_figures Pointer = ''>''"
| "plain_figures PointerSmall = ''*''"
| "plain_figures Tick = ''+''"
| "plain_figures Warning = ''!''"
| "plain_figures Cross = ''x''"
| "plain_figures ArrowLeft = ''<''"
| "plain_figures ArrowDown = ''v''"

definition plain_env :: env where
  "plain_env = \<lparr>
     stdout_columns = Some 80,
     cliTruncate = plain_truncate,
     cliWrap = plain_wrap,
     indentString = plain_indent,
     chalk = (\<lambda>c s. s),
     figures = plain_figures,
     spinner = [''-'', [CHR 0x5C], ''|'', ''/''],
     parseTaskTime = (\<lambda>d. case d of None \<Rightarrow> ''0s'' | Some n \<Rightarrow> string_of_nat (nat n) @ ''s'') \<rparr>"

text \<open>The renderer's fields as the class initialises them, and a task with nothing set
  but its id and title: not started, enabled, no output, no options of its own.\<close>

definition initialState :: rendererState where
  "initialState = \<lparr> bottomBar = [], promptBar = None, spinnerPosition = 0 \<rparr>"

definition noRendererOptions :: rendererOptions where
  "noRendererOptions = \<lparr>
     indentation = 2,
     clearOutput = None,
     showSubtasks = None,
     collapse = None,
     collapseSkips = None,
     showSkipMessage = None,
     suffixSkips = None,
     collapseErrors = None,
     showErrorMessage = None,
     suffixRetries = None,
     lazy = None,
     showTimer = None,
     removeEmptyLines = None,
     formatOutput = None \<rparr>"

definition newTask :: "string \<Rightarrow> string option \<Rightarrow> task_data" where
  "newTask k ttl = \<lparr>
     task_id = k,
     title = ttl,
     state = None,
     enabled = True,
     prompt = False,
     task_output = None,
     message = \<lparr> msg_error = None, msg_skip = None, msg_retry = None, msg_duration = None \<rparr>,
     exitOnError = None,
     taskRendererOptions = noRendererOptions,
     taskOptions = \<lparr> opt_bottomBar = None, opt_persistentOutput = None, opt_showTimer = None \<rparr> \<rparr>"

text \<open>Four sibling tasks for concrete runs: one that failed with its title as the error
  text, one that never started, one that is retrying for the first time, and one that was
  skipped with a reason.\<close>

definition exFailed :: task where
  "exFailed = Task ((newTask ''t1'' (Some ''deploy''))
     \<lparr> state := Some FAILED,
       message := \<lparr> msg_error = Some ''deploy'', msg_skip = None, msg_retry = None,
                    msg_duration = None \<rparr> \<rparr>) []"

definition exWaiting :: task where
  "exWaiting = Task (newTask ''t2'' (Some ''publish'')) []"

definition exRetrying :: task where
  "exRetrying = Task ((newTask ''t3'' (Some ''upload''))
     \<lparr> state := Some RETRYING,
       message := \<lparr> msg_error = None, msg_skip = None, msg_retry = Some 1,
                    msg_duration = None \<rparr> \<rparr>) []"

definition exSkipped :: task where
  "exSkipped = Task ((newTask ''t4'' (Some ''lint''))
     \<lparr> state := Some SKIPPED,
       message := \<lparr> msg_error = None, msg_skip = Some ''not needed'', msg_retry = None,
                    msg_duration = None \<rparr> \<rparr>) []"

text \<open>A pending task that streams its output to a bottom bar of two items, and a state
  of the renderer in which that bar already holds the task's dumped output.\<close>

definition exStream :: task where
  "exStream = Task ((newTask ''t5'' (Some ''stream''))
     \<lparr> state := Some PENDING,
       task_output := Some ''chunk'',
       taskOptions := \<lparr> opt_bottomBar = Some (BottomBarNumber 2), opt_persistentOutput = None,
                        opt_showTimer = None \<rparr> \<rparr>) []"

definition exStreamState :: rendererState where
  "exStreamState = \<lparr> bottomBar = [(''t5'', \<lparr> data = [Some ''* chunk''], items = Some 2 \<rparr>)],
                      promptBar = None, spinnerPosition = 0 \<rparr>"

text \<open>Tasks with subtasks: a pending group without a title, and a completed task that
  sets \<open>collapse\<close> to \<open>false\<close> for itself, each with one child that sets no option.
  A pending task without a title, for a given \<open>bottomBar\<close> option and a given output.
  The parts \<^verbatim>\<open>createRender\<close> renders by default.\<close>

definition exGroup :: task where
  "exGroup = Task ((newTask ''t6'' None) \<lparr> state := Some PENDING \<rparr>)
     [Task ((newTask ''t7'' (Some ''child'')) \<lparr> state := Some PENDING \<rparr>) []]"

definition exDone :: task where
  "exDone = Task ((newTask ''t8'' (Some ''parent''))
       \<lparr> state := Some COMPLETED,
         taskRendererOptions := noRendererOptions \<lparr> collapse := Some False \<rparr> \<rparr>)
     [Task ((newTask ''t9'' (Some ''child'')) \<lparr> state := Some COMPLETED \<rparr>) []]"

definition exAnonymous :: "bottomBarOption option \<Rightarrow> string \<Rightarrow> task" where
  "exAnonymous opt chunk = Task ((newTask ''t10'' None)
     \<lparr> state := Some PENDING,
       task_output := Some chunk,
       taskOptions := \<lparr> opt_bottomBar = opt, opt_persistentOutput = None,
                        opt_showTimer = None \<rparr> \<rparr>) []"

definition allParts :: renderParts where
  "allParts = \<lparr> part_tasks = True, part_bottomBar = True, part_prompt = True \<rparr>"

text \<open>The streaming task once completed and once skipped, a state in which its bar is
  full and a prompt is shown, a pending prompt task, and a pending task with inline
  output.\<close>

definition exStreamDone :: task where
  "exStreamDone = Task ((task_data exStream) \<lparr> state := Some COMPLETED \<rparr>) []"

definition exStreamSkipped :: task where
  "exStreamSkipped = Task ((task_data exStream) \<lparr> state := Some SKIPPED \<rparr>) []"

definition exStreamFull :: rendererState where
  "exStreamFull =
     \<lparr> bottomBar = [(''t5'', \<lparr> data = [Some ''* one'', Some ''* two''], items = Some 2 \<rparr>)],
       promptBar = Some ''name?'', spinnerPosition = 0 \<rparr>"

definition exPrompt :: task where
  "exPrompt = Task ((newTask ''t11'' (Some ''ask''))
     \<lparr> state := Some PENDING, prompt := True, task_output := Some ''name?'' \<rparr>) []"

definition exInline :: task where
  "exInline = Task ((newTask ''t12'' (Some ''compile''))
     \<lparr> state := Some PENDING, task_output := Some ''linking'' \<rparr>) []"

text \<open>The reference environment on a terminal of 12 columns, and the default options with
  wrapping.\<close>

definition narrow_env :: env where
  "narrow_env = plain_env\<lparr>stdout_columns := Some 12\<rparr>"

definition wrapOptions :: rendererOptions where
  "wrapOptions = defaultRendererOptions\<lparr>formatOutput := Some ''wrap''\<rparr>"

section \<open>Properties of line formatting\<close>

text \<open>
  C9. A string whose trimmed content is empty is formatted to nothing, whatever the icon,
  the level and the options are; in particular no error is raised for it, also when
  \<open>formatOutput\<close> is unknown.
\<close>

theorem formatString_blank:
  assumes "js_trim str = []"
  shows "formatString E opts str icon level = Inr None"
  using assms by (simp add: formatString_def)

theorem formatString_blank_witness:
  "js_trim [CHR 0x20, CHR 0x09, CHR 0x20] = []
   \<and> formatString plain_env (defaultRendererOptions\<lparr>formatOutput := Some ''zigzag''\<rparr>)
        [CHR 0x20, CHR 0x09, CHR 0x20] ''>'' 3 = Inr None"
proof -
  have blank: "js_trim [CHR 0x20, CHR 0x09, CHR 0x20] = []"
    by (simp add: js_trim_def isWhitespace_def)
  from formatString_blank [OF blank] blank show ?thesis by simp
qed




text \<open>
  C8. For a task with a title, \<open>dumpData\<close> with source \<open>error\<close> returns nothing when
  the stored error text is the title; so for a failed task whose error text repeats its
  title the block that prints error messages appends no line that survives, whatever
  \<open>collapseErrors\<close> is.
\<close>

theorem dumpData_error_equal_title:
  assumes "hasTitle t" and "msg_error (message (task_data t)) = title (task_data t)"
  shows "dumpData E opts st t level ErrorData = Inr None
         \<and> (hasFailed t \<longrightarrow>
              (\<exists>out. currentTaskMessage E opts st t level = Inr out \<and> filterBoolean out = []))"
proof -
  have dump: "dumpData E opts st t level ErrorData = Inr None"
    using assms by (simp add: dumpData_def)
  have "\<not> isSkipped t" if "hasFailed t"
    using that by (simp add: hasFailed_def isSkipped_def)
  then have "hasFailed t \<longrightarrow>
      (\<exists>out. currentTaskMessage E opts st t level = Inr out \<and> filterBoolean out = [])"
    by (simp add: currentTaskMessage_def dump appendLine_def filterBoolean_def)
  with dump show ?thesis by simp
qed

theorem dumpData_error_equal_title_witness:
  "hasTitle exFailed
   \<and> msg_error (message (task_data exFailed)) = title (task_data exFailed)
   \<and> hasFailed exFailed
   \<and> dumpData plain_env (defaultRendererOptions\<lparr>collapseErrors := Some False\<rparr>)
        initialState exFailed 0 ErrorData = Inr None
   \<and> (\<exists>out. currentTaskMessage plain_env (defaultRendererOptions\<lparr>collapseErrors := Some False\<rparr>)
               initialState exFailed 0 = Inr out \<and> filterBoolean out = [])"
proof -
  have titled: "hasTitle exFailed"
    by (simp add: exFailed_def hasTitle_def newTask_def)
  have same: "msg_error (message (task_data exFailed)) = title (task_data exFailed)"
    by (simp add: exFailed_def newTask_def)
  have failed: "hasFailed exFailed"
    by (simp add: exFailed_def hasFailed_def)
  from dumpData_error_equal_title [OF titled same] titled same failed
  show ?thesis by blast
qed

section \<open>Properties of the title line\<close>

text \<open>For an enabled task, the entries the loop body appends begin with the entries of
  the title block.\<close>

lemma renderTask_begins_with_title:
  assumes "isEnabled t" and "renderTask E opts tasks level t st = Inr (out, st')"
  shows "\<exists>o1 rest. currentTaskTitle E opts st tasks t level = Inr o1 \<and> out = o1 @ rest"
  using assms by (cases t) (auto split: sum.splits if_splits prod.splits)

text \<open>
  C4. For a task with a title in a list of siblings of which one has failed: if the task
  itself has not failed, its \<open>exitOnError\<close> option is not \<open>false\<close>, and it is neither
  completed nor skipped, the title block prints the title with the red small filled
  square, and for an enabled task this line is the first entry the renderer appends for
  the task.
\<close>

theorem stopped_marker_for_siblings_of_failed_task:
  assumes "title (task_data t) = Some ttl"
    and "list_ex hasFailed tasks"
    and "\<not> hasFailed t"
    and "exitOnError (task_data t) \<noteq> Some False"
    and "\<not> isCompleted t" and "\<not> isSkipped t"
  shows "currentTaskTitle E opts st tasks t level =
           appendLine (formatString E opts ttl (chalk E Red (figures E SquareSmallFilled)) level)
         \<and> (isEnabled t \<longrightarrow> renderTask E opts tasks level t st = Inr (out, st') \<longrightarrow>
              (\<exists>line rest.
                 formatString E opts ttl (chalk E Red (figures E SquareSmallFilled)) level = Inr line
                 \<and> out = line # rest))"
proof -
  have stopped: "stoppedBySibling tasks t"
    using assms by (simp add: stoppedBySibling_def)
  have block: "currentTaskTitle E opts st tasks t level =
      appendLine (formatString E opts ttl (chalk E Red (figures E SquareSmallFilled)) level)"
    using assms(1) stopped by (simp add: currentTaskTitle_def)
  have "\<exists>line rest.
      formatString E opts ttl (chalk E Red (figures E SquareSmallFilled)) level = Inr line
      \<and> out = line # rest"
    if en: "isEnabled t" and run: "renderTask E opts tasks level t st = Inr (out, st')"
  proof -
    from renderTask_begins_with_title [OF en run] obtain o1 rest
      where o1: "currentTaskTitle E opts st tasks t level = Inr o1" and out: "out = o1 @ rest"
      by blast
    from o1 block obtain line
      where "formatString E opts ttl (chalk E Red (figures E SquareSmallFilled)) level = Inr line"
        and "o1 = [line]"
      by (auto simp: appendLine_def split: sum.splits)
    with out show ?thesis by simp
  qed
  with block show ?thesis by blast
qed

theorem stopped_marker_for_siblings_of_failed_task_witness:
  "title (task_data exWaiting) = Some ''publish''
   \<and> list_ex hasFailed [exFailed, exWaiting]
   \<and> \<not> hasFailed exWaiting
   \<and> exitOnError (task_data exWaiting) \<noteq> Some False
   \<and> \<not> isCompleted exWaiting \<and> \<not> isSkipped exWaiting
   \<and> isEnabled exWaiting
   \<and> currentTaskTitle plain_env defaultRendererOptions initialState [exFailed, exWaiting]
        exWaiting 0 = Inr [Some ''# publish'']
   \<and> renderTask plain_env defaultRendererOptions [exFailed, exWaiting] 0 exWaiting initialState
        = Inr ([Some ''# publish''], initialState)"
proof -
  have hyps: "title (task_data exWaiting) = Some ''publish''
      \<and> list_ex hasFailed [exFailed, exWaiting]
      \<and> \<not> hasFailed exWaiting
      \<and> exitOnError (task_data exWaiting) \<noteq> Some False
      \<and> \<not> isCompleted exWaiting \<and> \<not> isSkipped exWaiting
      \<and> isEnabled exWaiting"
    by code_simp
  have line: "formatString plain_env defaultRendererOptions ''publish''
      (chalk plain_env Red (figures plain_env SquareSmallFilled)) 0 = Inr (Some ''# publish'')"
    by code_simp
  have run: "renderTask plain_env defaultRendererOptions [exFailed, exWaiting] 0 exWaiting
      initialState = Inr ([Some ''# publish''], initialState)"
    by code_simp
  from hyps have "currentTaskTitle plain_env defaultRendererOptions initialState
      [exFailed, exWaiting] exWaiting 0 =
      appendLine (formatString plain_env defaultRendererOptions ''publish''
        (chalk plain_env Red (figures plain_env SquareSmallFilled)) 0)"
    using stopped_marker_for_siblings_of_failed_task
      [of exWaiting "''publish''" "[exFailed, exWaiting]"]
    by blast
  with line have "currentTaskTitle plain_env defaultRendererOptions initialState
      [exFailed, exWaiting] exWaiting 0 = Inr [Some ''# publish'']"
    by (simp add: appendLine_def)
  with hyps run show ?thesis by blast
qed

text \<open>
  C6 (as stated, refuted). The claim gives every retrying task with a title, under
  \<open>suffixRetries\<close>, the line of its title with the retry suffix. The stopped marker
  comes first: beside a failed sibling, a retrying task whose \<open>exitOnError\<close> is not
  \<open>false\<close> is printed with the square and its bare title, where the claim expects the
  line with the suffix.
\<close>

theorem retry_suffix_overridden_by_stopped_marker:
  "hasTitle exRetrying \<and> isRetrying exRetrying
   \<and> enabledOpt (getSelfOrParentOption defaultRendererOptions exRetrying suffixRetries)
   \<and> msg_retry (message (task_data exRetrying)) = Some 1
   \<and> currentTaskTitle plain_env defaultRendererOptions initialState [exFailed, exRetrying]
        exRetrying 0 = Inr [Some ''# upload'']
   \<and> formatString plain_env defaultRendererOptions
        (addSuffixToMessage plain_env ''upload'' (''RETRYING-'' @ string_of_nat 1) None)
        (getSymbol plain_env defaultRendererOptions initialState exRetrying False) 0
        = Inr (Some ''- upload [RETRYING-1]'')"
  by code_simp

text \<open>
  C6 (amended). For a skipped task with a title, under \<open>collapseSkips\<close>, the title line
  is the skip reason (the title when no reason is stored or \<open>showSkipMessage\<close> is not
  on), followed by the suffix \<open>[SKIPPED]\<close> unless \<open>suffixSkips\<close> is \<open>false\<close>, with
  the down arrow as its icon. For a retrying task with a title and a stored retry count,
  under \<open>suffixRetries\<close>, to which the stopped marker does not apply (no sibling has
  failed, or the task's \<open>exitOnError\<close> is \<open>false\<close>), the title line is the title
  followed by the suffix \<open>[RETRYING-count]\<close>.
\<close>

theorem skipped_and_retrying_title_lines:
  assumes "title (task_data t) = Some ttl"
  shows "(isSkipped t \<and> enabledOpt (getSelfOrParentOption opts t collapseSkips) \<longrightarrow>
            currentTaskTitle E opts st tasks t level =
              appendLine (formatString E opts
                ((case msg_skip (message (task_data t)) of
                    None \<Rightarrow> ttl
                  | Some reason \<Rightarrow>
                      if reason \<noteq> [] \<and> enabledOpt (getSelfOrParentOption opts t showSkipMessage)
                      then reason else ttl)
                 @ (if getSelfOrParentOption opts t suffixSkips = Some False then []
                    else chalk E Dim '' [SKIPPED]''))
                (chalk E Yellow (figures E ArrowDown)) level))
         \<and> (isRetrying t \<and> enabledOpt (getSelfOrParentOption opts t suffixRetries)
             \<and> msg_retry (message (task_data t)) = Some n
             \<and> (\<not> list_ex hasFailed tasks \<or> exitOnError (task_data t) = Some False) \<longrightarrow>
            currentTaskTitle E opts st tasks t level =
              appendLine (formatString E opts
                (ttl @ chalk E Dim ('' [RETRYING-'' @ string_of_nat n @ '']''))
                (getSymbol E opts st t False) level))"
proof -
  have skip: "currentTaskTitle E opts st tasks t level =
      appendLine (formatString E opts
        ((case msg_skip (message (task_data t)) of
            None \<Rightarrow> ttl
          | Some reason \<Rightarrow>
              if reason \<noteq> [] \<and> enabledOpt (getSelfOrParentOption opts t showSkipMessage)
              then reason else ttl)
         @ (if getSelfOrParentOption opts t suffixSkips = Some False then []
            else chalk E Dim '' [SKIPPED]''))
        (chalk E Yellow (figures E ArrowDown)) level)"
    if sk: "isSkipped t" and co: "enabledOpt (getSelfOrParentOption opts t collapseSkips)"
  proof -
    from sk have st: "\<not> stoppedBySibling tasks t" "\<not> hasFailed t" "\<not> isPending t"
        "\<not> isCompleted t" "\<not> isRetrying t" "\<not> isRollingBack t" "\<not> hasRolledBack t"
      by (simp_all add: stoppedBySibling_def isSkipped_def hasFailed_def isPending_def
            isCompleted_def isRetrying_def isRollingBack_def hasRolledBack_def)
    from co have co': "getSelfOrParentOption opts t collapseSkips = Some True"
      by (simp add: enabledOpt_def)
    have sym: "getSymbol E opts st t False = chalk E Yellow (figures E ArrowDown)"
      using sk st co' by (simp add: getSymbol_def enabledOpt_def)
    have suffix: "addSuffixToMessage E m ''SKIPPED'' (getSelfOrParentOption opts t suffixSkips)
        = m @ (if getSelfOrParentOption opts t suffixSkips = Some False then []
               else chalk E Dim '' [SKIPPED]'')" for m
      by (cases "getSelfOrParentOption opts t suffixSkips") (auto simp: addSuffixToMessage_def)
    show ?thesis
      using assms sk st co by (simp add: currentTaskTitle_def sym suffix)
  qed
  have retry: "currentTaskTitle E opts st tasks t level =
      appendLine (formatString E opts
        (ttl @ chalk E Dim ('' [RETRYING-'' @ string_of_nat n @ '']''))
        (getSymbol E opts st t False) level)"
    if re: "isRetrying t" and su: "enabledOpt (getSelfOrParentOption opts t suffixRetries)"
      and cnt: "msg_retry (message (task_data t)) = Some n"
      and free: "\<not> list_ex hasFailed tasks \<or> exitOnError (task_data t) = Some False"
  proof -
    from free have ns: "\<not> stoppedBySibling tasks t"
      by (auto simp: stoppedBySibling_def)
    from re have st: "\<not> hasFailed t" "\<not> isSkipped t"
      by (simp_all add: isRetrying_def hasFailed_def isSkipped_def)
    show ?thesis
      using assms re su cnt ns st
      by (simp add: currentTaskTitle_def addSuffixToMessage_def)
  qed
  from skip retry show ?thesis by blast
qed

theorem skipped_and_retrying_title_lines_witness:
  "title (task_data exSkipped) = Some ''lint''
   \<and> isSkipped exSkipped
   \<and> enabledOpt (getSelfOrParentOption defaultRendererOptions exSkipped collapseSkips)
   \<and> currentTaskTitle plain_env defaultRendererOptions initialState [exSkipped, exRetrying]
        exSkipped 0 = Inr [Some ''v not needed [SKIPPED]'']
   \<and> title (task_data exRetrying) = Some ''upload''
   \<and> isRetrying exRetrying
   \<and> enabledOpt (getSelfOrParentOption defaultRendererOptions exRetrying suffixRetries)
   \<and> msg_retry (message (task_data exRetrying)) = Some 1
   \<and> \<not> list_ex hasFailed [exSkipped, exRetrying]
   \<and> currentTaskTitle plain_env defaultRendererOptions initialState [exSkipped, exRetrying]
        exRetrying 0 = Inr [Some ''- upload [RETRYING-1]'']"
proof -
  have s1: "title (task_data exSkipped) = Some ''lint''"
    by code_simp
  have s2: "isSkipped exSkipped
      \<and> enabledOpt (getSelfOrParentOption defaultRendererOptions exSkipped collapseSkips)"
    by code_simp
  have s3: "appendLine (formatString plain_env defaultRendererOptions
        ((case msg_skip (message (task_data exSkipped)) of
            None \<Rightarrow> ''lint''
          | Some reason \<Rightarrow>
              if reason \<noteq> []
                 \<and> enabledOpt (getSelfOrParentOption defaultRendererOptions exSkipped showSkipMessage)
              then reason else ''lint'')
         @ (if getSelfOrParentOption defaultRendererOptions exSkipped suffixSkips = Some False
            then [] else chalk plain_env Dim '' [SKIPPED]''))
        (chalk plain_env Yellow (figures plain_env ArrowDown)) 0)
      = Inr [Some ''v not needed [SKIPPED]'']"
    by code_simp
  have r1: "title (task_data exRetrying) = Some ''upload''"
    by code_simp
  have r2: "isRetrying exRetrying
      \<and> enabledOpt (getSelfOrParentOption defaultRendererOptions exRetrying suffixRetries)
      \<and> msg_retry (message (task_data exRetrying)) = Some 1
      \<and> \<not> list_ex hasFailed [exSkipped, exRetrying]"
    by code_simp
  have r3: "appendLine (formatString plain_env defaultRendererOptions
        (''upload'' @ chalk plain_env Dim ('' [RETRYING-'' @ string_of_nat 1 @ '']''))
        (getSymbol plain_env defaultRendererOptions initialState exRetrying False) 0)
      = Inr [Some ''- upload [RETRYING-1]'']"
    by code_simp
  have skipLine: "currentTaskTitle plain_env defaultRendererOptions initialState
      [exSkipped, exRetrying] exSkipped 0 = Inr [Some ''v not needed [SKIPPED]'']"
    using skipped_and_retrying_title_lines [OF s1, of defaultRendererOptions plain_env
        initialState "[exSkipped, exRetrying]" 0] s2 s3
    by simp
  have retryLine: "currentTaskTitle plain_env defaultRendererOptions initialState
      [exSkipped, exRetrying] exRetrying 0 = Inr [Some ''- upload [RETRYING-1]'']"
    using skipped_and_retrying_title_lines [OF r1, of defaultRendererOptions plain_env
        initialState "[exSkipped, exRetrying]" 0 1] r2 r3
    by simp
  from s1 s2 r1 r2 skipLine retryLine show ?thesis by blast
qed

section \<open>Properties of the output regions\<close>

text \<open>
  C10. For a task whose output goes to the bottom bar: when the dumped output is already
  among the data of the task's bar, the block leaves the state as it is; and for a skipped
  task nothing is added to the data: the bar of the task is what it was, or a new bar
  without data.
\<close>

theorem bottom_bar_skips_duplicates_and_skipped_tasks:
  assumes "truthy (task_output (task_data t))"
    and "\<not> (isActive t \<and> isPrompt t)"
    and "isBottomBar t \<or> \<not> hasTitle t"
    and "dumpData E opts st t (- 1) OutputData = Inr x"
  shows "(map_of (bottomBar st) (task_id (task_data t)) = Some b \<and> x \<in> set (data b) \<longrightarrow>
            currentTaskOutput E opts st t level = Inr ([], st))
         \<and> (isSkipped t \<longrightarrow>
              (\<exists>st'. currentTaskOutput E opts st t level = Inr ([], st')
                 \<and> map_of (bottomBar st') (task_id (task_data t)) =
                     (case map_of (bottomBar st) (task_id (task_data t)) of
                        None \<Rightarrow> Some (newBar t)
                      | Some b' \<Rightarrow> Some b')
                 \<and> data (newBar t) = []))"
proof -
  have route: "currentTaskOutput E opts st t level =
      Inr ([], st\<lparr>bottomBar := pushBottomBar t x (bottomBar st)\<rparr>)"
    using assms by (auto simp add: currentTaskOutput_def)
  have dup: "currentTaskOutput E opts st t level = Inr ([], st)"
    if "map_of (bottomBar st) (task_id (task_data t)) = Some b" and "x \<in> set (data b)"
  proof -
    from that have "pushBottomBar t x (bottomBar st) = bottomBar st"
      by (auto simp: pushBottomBar_def Let_def list_ex_iff)
    with route show ?thesis by simp
  qed
  have skipped: "\<exists>st'. currentTaskOutput E opts st t level = Inr ([], st')
      \<and> map_of (bottomBar st') (task_id (task_data t)) =
          (case map_of (bottomBar st) (task_id (task_data t)) of
             None \<Rightarrow> Some (newBar t)
           | Some b' \<Rightarrow> Some b')
      \<and> data (newBar t) = []"
    if "isSkipped t"
  proof -
    from that have "pushBottomBar t x (bottomBar st) =
        (if map_of (bottomBar st) (task_id (task_data t)) = None
         then bottomBar st @ [(task_id (task_data t), newBar t)] else bottomBar st)"
      by (simp add: pushBottomBar_def Let_def)
    moreover have "map_of (if map_of (bottomBar st) (task_id (task_data t)) = None
         then bottomBar st @ [(task_id (task_data t), newBar t)] else bottomBar st)
           (task_id (task_data t)) =
          (case map_of (bottomBar st) (task_id (task_data t)) of
             None \<Rightarrow> Some (newBar t)
           | Some b' \<Rightarrow> Some b')"
      by (auto simp: map_add_def split: option.splits)
    moreover have "data (newBar t) = []"
      by (simp add: newBar_def)
    ultimately show ?thesis using route by simp
  qed
  from dup skipped show ?thesis by blast
qed

theorem bottom_bar_skips_duplicates_and_skipped_tasks_witness:
  "truthy (task_output (task_data exStream))
   \<and> \<not> (isActive exStream \<and> isPrompt exStream)
   \<and> isBottomBar exStream
   \<and> dumpData plain_env defaultRendererOptions exStreamState exStream (- 1) OutputData
       = Inr (Some ''* chunk'')
   \<and> map_of (bottomBar exStreamState) (task_id (task_data exStream))
       = Some \<lparr> data = [Some ''* chunk''], items = Some 2 \<rparr>
   \<and> currentTaskOutput plain_env defaultRendererOptions exStreamState exStream 0
       = Inr ([], exStreamState)
   \<and> isSkipped exStreamSkipped
   \<and> dumpData plain_env defaultRendererOptions exStreamFull exStreamSkipped (- 1) OutputData
       = Inr (Some ''v chunk'')
   \<and> (\<exists>st'. currentTaskOutput plain_env defaultRendererOptions exStreamFull exStreamSkipped 0
               = Inr ([], st')
             \<and> map_of (bottomBar st') ''t5''
                 = Some \<lparr> data = [Some ''* one'', Some ''* two''], items = Some 2 \<rparr>)"
proof -
  have a: "truthy (task_output (task_data exStream))"
    by code_simp
  have b: "\<not> (isActive exStream \<and> isPrompt exStream)"
    by code_simp
  have c: "isBottomBar exStream"
    by code_simp
  have d: "dumpData plain_env defaultRendererOptions exStreamState exStream (- 1) OutputData
       = Inr (Some ''* chunk'')"
    by code_simp
  have e: "map_of (bottomBar exStreamState) (task_id (task_data exStream))
       = Some \<lparr> data = [Some ''* chunk''], items = Some 2 \<rparr>"
    by code_simp
  from bottom_bar_skips_duplicates_and_skipped_tasks
    [OF a b disjI1 [OF c] d, of "\<lparr> data = [Some ''* chunk''], items = Some 2 \<rparr>" 0] e
  have dup: "currentTaskOutput plain_env defaultRendererOptions exStreamState exStream 0
       = Inr ([], exStreamState)"
    by simp
  have a': "truthy (task_output (task_data exStreamSkipped))"
    by code_simp
  have b': "\<not> (isActive exStreamSkipped \<and> isPrompt exStreamSkipped)"
    by code_simp
  have c': "isBottomBar exStreamSkipped"
    by code_simp
  have d': "dumpData plain_env defaultRendererOptions exStreamFull exStreamSkipped (- 1)
      OutputData = Inr (Some ''v chunk'')"
    by code_simp
  have e': "isSkipped exStreamSkipped"
    by code_simp
  have f': "task_id (task_data exStreamSkipped) = ''t5''
      \<and> map_of (bottomBar exStreamFull) ''t5''
          = Some \<lparr> data = [Some ''* one'', Some ''* two''], items = Some 2 \<rparr>"
    by code_simp
  from bottom_bar_skips_duplicates_and_skipped_tasks [OF a' b' disjI1 [OF c'] d', of _ 0] e' f'
  have skipped: "\<exists>st'. currentTaskOutput plain_env defaultRendererOptions exStreamFull
        exStreamSkipped 0 = Inr ([], st')
      \<and> map_of (bottomBar st') ''t5''
          = Some \<lparr> data = [Some ''* one'', Some ''* two''], items = Some 2 \<rparr>"
    by auto
  from a b c d e dup e' d' skipped show ?thesis by blast
qed

section \<open>Properties of the subtasks\<close>

lemma renderTask_unfold:
  "renderTask E opts tasks level t st =
     (if \<not> isEnabled t then Inr ([], st)
      else
        case currentTaskTitle E opts st tasks t level of
          Inl e \<Rightarrow> Inl e
        | Inr o1 \<Rightarrow>
        (case currentTaskMessage E opts st t level of
          Inl e \<Rightarrow> Inl e
        | Inr o2 \<Rightarrow>
        (case currentTaskOutput E opts st t level of
          Inl e \<Rightarrow> Inl e
        | Inr (o3, st1) \<Rightarrow>
        (case
           (if shouldRenderSubtasks opts t then
              (case multiLineRenderer E opts (subtasks t) (subtaskLevel t level) st1 of
                 Inl e \<Rightarrow> Inl e
               | Inr (subtaskRender, st2) \<Rightarrow>
                   Inr (if keepSubtaskRender t subtaskRender then [subtaskRender] else [], st2))
            else Inr ([], st1))
         of
           Inl e \<Rightarrow> Inl e
         | Inr (o4, st2) \<Rightarrow> Inr (o1 @ o2 @ o3 @ o4, afterTaskFinished t st2)))))"
proof (cases t)
  case (Task d subs)
  show ?thesis unfolding Task multiLineRenderer_def task.sel by simp
qed

text \<open>
  C7 (as stated, refuted). The claim lets the renderer go one indent level deeper
  whenever it renders subtasks, and lists the cases in which it does. A pending group
  without a title has its child rendered at the group's own level: the output is the
  child's line at level 0, not at level 1. And a completed task with a title that sets
  \<open>collapse\<close> to \<open>false\<close> for itself has its child rendered, although the task is not
  pending, has not failed, has a title, and its child sets no \<open>collapse\<close> option, has
  not failed and has not rolled back.
\<close>

theorem subtasks_rendered_outside_claimed_cases:
  "\<not> hasTitle exGroup \<and> isPending exGroup
   \<and> multiLineRenderer plain_env defaultRendererOptions [exGroup] 0 initialState
        = Inr (Some ''- child'', initialState)
   \<and> multiLineRenderer plain_env defaultRendererOptions (subtasks exGroup) 0 initialState
        = Inr (Some ''- child'', initialState)
   \<and> multiLineRenderer plain_env defaultRendererOptions (subtasks exGroup) 1 initialState
        = Inr (Some ''  - child'', initialState)
   \<and> \<not> isPending exDone \<and> \<not> hasFailed exDone \<and> hasTitle exDone
   \<and> \<not> list_ex (\<lambda>subtask. collapse (taskRendererOptions (task_data subtask)) = Some False)
          (subtasks exDone)
   \<and> \<not> list_ex (\<lambda>subtask. getSelfOrParentOption defaultRendererOptions subtask collapse
                              = Some False) (subtasks exDone)
   \<and> \<not> list_ex hasFailed (subtasks exDone)
   \<and> \<not> list_ex hasRolledBack (subtasks exDone)
   \<and> multiLineRenderer plain_env defaultRendererOptions [exDone] 0 initialState
        = Inr (Some (''+ parent'' @ [EOL] @ ''  + child''), initialState)"
  by code_simp

text \<open>
  C7 (amended). For an enabled task whose first three blocks have run, the renderer
  renders the subtasks exactly when \<open>showSubtasks\<close> is not \<open>false\<close> for the task, the
  task has subtasks, and the task is pending, or has failed, or is completed without a
  title, or is completed with \<open>collapse\<close> being \<open>false\<close> for it while no subtask sets
  \<open>collapse\<close> to \<open>true\<close>, or some subtask sets \<open>collapse\<close> to \<open>false\<close>, has
  failed or has rolled back. The subtasks are rendered one level deeper when the task has
  a title and at the task's own level when it has none. In every other case the subtasks
  are not rendered: the result is made of the first three blocks alone.
\<close>

theorem subtasks_rendered_iff:
  assumes "isEnabled t"
    and "currentTaskTitle E opts st tasks t level = Inr o1"
    and "currentTaskMessage E opts st t level = Inr o2"
    and "currentTaskOutput E opts st t level = Inr (o3, st1)"
  shows "renderTask E opts tasks level t st =
     (if getSelfOrParentOption opts t showSubtasks \<noteq> Some False
         \<and> subtasks t \<noteq> []
         \<and> (isPending t \<or> hasFailed t \<or> (isCompleted t \<and> \<not> hasTitle t)
            \<or> (isCompleted t \<and> getSelfOrParentOption opts t collapse = Some False
                \<and> (\<forall>subtask \<in> set (subtasks t).
                      collapse (taskRendererOptions (task_data subtask)) \<noteq> Some True))
            \<or> (\<exists>subtask \<in> set (subtasks t).
                  collapse (taskRendererOptions (task_data subtask)) = Some False
                  \<or> hasFailed subtask \<or> hasRolledBack subtask))
      then
        (case multiLineRenderer E opts (subtasks t)
                (if hasTitle t then level + 1 else level) st1 of
           Inl e \<Rightarrow> Inl e
         | Inr (subtaskRender, st2) \<Rightarrow>
             Inr (o1 @ o2 @ o3
                    @ (if keepSubtaskRender t subtaskRender then [subtaskRender] else []),
                  afterTaskFinished t st2))
      else Inr (o1 @ o2 @ o3, afterTaskFinished t st1))"
proof -
  have cond: "shouldRenderSubtasks opts t =
      (getSelfOrParentOption opts t showSubtasks \<noteq> Some False
         \<and> subtasks t \<noteq> []
         \<and> (isPending t \<or> hasFailed t \<or> (isCompleted t \<and> \<not> hasTitle t)
            \<or> (isCompleted t \<and> getSelfOrParentOption opts t collapse = Some False
                \<and> (\<forall>subtask \<in> set (subtasks t).
                      collapse (taskRendererOptions (task_data subtask)) \<noteq> Some True))
            \<or> (\<exists>subtask \<in> set (subtasks t).
                  collapse (taskRendererOptions (task_data subtask)) = Some False
                  \<or> hasFailed subtask \<or> hasRolledBack subtask)))"
    unfolding shouldRenderSubtasks_def hasSubtasks_def list_ex_iff by blast
  have lvl: "subtaskLevel t level = (if hasTitle t then level + 1 else level)"
    by (simp add: subtaskLevel_def)
  show ?thesis
    unfolding cond [symmetric] lvl [symmetric]
    using assms
    by (simp add: renderTask_unfold [of E opts tasks level t st] split: sum.splits prod.splits)
qed

theorem subtasks_rendered_iff_witness:
  "isEnabled exDone
   \<and> currentTaskTitle plain_env defaultRendererOptions initialState [exDone] exDone 0
       = Inr [Some ''+ parent'']
   \<and> currentTaskMessage plain_env defaultRendererOptions initialState exDone 0 = Inr []
   \<and> currentTaskOutput plain_env defaultRendererOptions initialState exDone 0
       = Inr ([], initialState)
   \<and> isCompleted exDone
   \<and> getSelfOrParentOption defaultRendererOptions exDone collapse = Some False
   \<and> renderTask plain_env defaultRendererOptions [exDone] 0 exDone initialState
       = Inr ([Some ''+ parent'', Some ''  + child''], initialState)"
proof -
  have en: "isEnabled exDone"
    by code_simp
  have b1: "currentTaskTitle plain_env defaultRendererOptions initialState [exDone] exDone 0
       = Inr [Some ''+ parent'']"
    by code_simp
  have b2: "currentTaskMessage plain_env defaultRendererOptions initialState exDone 0 = Inr []"
    by code_simp
  have b3: "currentTaskOutput plain_env defaultRendererOptions initialState exDone 0
       = Inr ([], initialState)"
    by code_simp
  have facts: "isCompleted exDone
      \<and> getSelfOrParentOption defaultRendererOptions exDone collapse = Some False"
    by code_simp
  have rhs: "(if getSelfOrParentOption defaultRendererOptions exDone showSubtasks \<noteq> Some False
         \<and> subtasks exDone \<noteq> []
         \<and> (isPending exDone \<or> hasFailed exDone \<or> (isCompleted exDone \<and> \<not> hasTitle exDone)
            \<or> (isCompleted exDone
                \<and> getSelfOrParentOption defaultRendererOptions exDone collapse = Some False
                \<and> (\<forall>subtask \<in> set (subtasks exDone).
                      collapse (taskRendererOptions (task_data subtask)) \<noteq> Some True))
            \<or> (\<exists>subtask \<in> set (subtasks exDone).
                  collapse (taskRendererOptions (task_data subtask)) = Some False
                  \<or> hasFailed subtask \<or> hasRolledBack subtask))
      then
        (case multiLineRenderer plain_env defaultRendererOptions (subtasks exDone)
                (if hasTitle exDone then 0 + 1 else 0) initialState of
           Inl e \<Rightarrow> Inl e
         | Inr (subtaskRender, st2) \<Rightarrow>
             Inr ([Some ''+ parent''] @ [] @ []
                    @ (if keepSubtaskRender exDone subtaskRender then [subtaskRender] else []),
                  afterTaskFinished exDone st2))
      else Inr ([Some ''+ parent''] @ [] @ [], afterTaskFinished exDone initialState))
     = Inr ([Some ''+ parent'', Some ''  + child''], initialState)"
    by code_simp
  from subtasks_rendered_iff [OF en b1 b2 b3] rhs
  have "renderTask plain_env defaultRendererOptions [exDone] 0 exDone initialState
       = Inr ([Some ''+ parent'', Some ''  + child''], initialState)"
    by simp
  with en b1 b2 b3 facts show ?thesis by blast
qed

section \<open>Properties of the output routing\<close>

lemma renderTask_rest:
  assumes "isEnabled t"
    and "currentTaskTitle E opts st tasks t level = Inr o1"
    and "currentTaskMessage E opts st t level = Inr o2"
  shows "renderTask E opts tasks level t st =
     (case currentTaskOutput E opts st t level of
        Inl e \<Rightarrow> Inl e
      | Inr (o3, st1) \<Rightarrow> subtasksAndCleanup E opts level t (o1 @ o2 @ o3) st1)"
  using assms
  by (simp add: renderTask_unfold [of E opts tasks level t st] subtasksAndCleanup_def
        split: sum.splits prod.splits)

lemma map_of_updateBar:
  "map_of (updateBar k f bb) k' = (if k' = k then map_option f (map_of bb k) else map_of bb k')"
  by (induction bb) (auto simp: updateBar_def)

lemma pushBottomBar_lookup:
  "map_of (pushBottomBar t x bb) (task_id (task_data t)) =
     Some (case map_of bb (task_id (task_data t)) of
             None \<Rightarrow> (newBar t)\<lparr>data := if isSkipped t then [] else [x]\<rparr>
           | Some b \<Rightarrow> if x \<in> set (data b) \<or> isSkipped t then b
                       else b\<lparr>data := data b @ [x]\<rparr>)"
proof (cases "map_of bb (task_id (task_data t))")
  case None
  then have "map_of (bb @ [(task_id (task_data t), newBar t)]) (task_id (task_data t))
      = Some (newBar t)"
    by (simp add: map_add_def)
  with None show ?thesis
    by (auto simp: pushBottomBar_def Let_def map_of_updateBar newBar_def)
next
  case (Some b)
  then show ?thesis
    by (auto simp: pushBottomBar_def Let_def map_of_updateBar list_ex_iff)
qed

lemma pushBottomBar_others:
  assumes "k \<noteq> task_id (task_data t)"
  shows "map_of (pushBottomBar t x bb) k = map_of bb k"
  using assms
  by (auto simp: pushBottomBar_def Let_def map_of_updateBar map_add_def split: option.splits)


text \<open>
  C3 (as stated, refuted). The claim lets the renderer route the output of every enabled
  task to exactly one region, and to the bottom bar when the \<open>bottomBar\<close> option is on.
  The output of a skipped task with the option on reaches no region: nothing is added to
  its bar, and the frame shows the title line only. The same holds for a completed task
  with the option on and without \<open>persistentOutput\<close>: its bar is deleted at the end of
  the same pass.
\<close>

theorem skipped_or_settled_bottom_bar_output_reaches_no_region:
  "isEnabled exStreamSkipped \<and> truthy (task_output (task_data exStreamSkipped))
   \<and> isBottomBar exStreamSkipped \<and> \<not> isPrompt exStreamSkipped
   \<and> createRender plain_env defaultRendererOptions [exStreamSkipped] allParts initialState
       = Inr (''v stream [SKIPPED]'', initialState)
   \<and> isEnabled exStreamDone \<and> truthy (task_output (task_data exStreamDone))
   \<and> isBottomBar exStreamDone \<and> \<not> isPrompt exStreamDone
   \<and> createRender plain_env defaultRendererOptions [exStreamDone] allParts initialState
       = Inr (''+ stream'', initialState)"
  by code_simp

text \<open>
  C3 (amended). For an enabled task with non-empty output whose title and message
  blocks have run, the renderer writes the output to at most one region, chosen in this
  order, and then goes on to the subtasks and the clean-up. An active task (pending,
  retrying or rolling back) that is a prompt: its output becomes the prompt bar.
  Otherwise, a task with the \<open>bottomBar\<close> option on (true, or a number that is not zero)
  or without a title: the task's bar, a new one when it has none, gets the dumped output
  appended unless the bar holds it already or the task is skipped; the bars of other tasks
  stay, and nothing is printed inline. Otherwise, an active task or one with
  \<open>persistentOutput\<close>: the dumped output is printed inline after the title and message
  lines, and the state stays. Otherwise the output is written nowhere.
\<close>

theorem output_routed_by_renderTask:
  assumes "isEnabled t"
    and "truthy (task_output (task_data t))"
    and "currentTaskTitle E opts st tasks t level = Inr o1"
    and "currentTaskMessage E opts st t level = Inr o2"
  shows "((isPending t \<or> isRetrying t \<or> isRollingBack t) \<and> isPrompt t \<longrightarrow>
            renderTask E opts tasks level t st =
              subtasksAndCleanup E opts level t (o1 @ o2)
                (st\<lparr>promptBar := task_output (task_data t)\<rparr>))
         \<and> (\<not> ((isPending t \<or> isRetrying t \<or> isRollingBack t) \<and> isPrompt t)
             \<and> (isBottomBar t \<or> \<not> hasTitle t) \<longrightarrow>
            (case dumpData E opts st t (- 1) OutputData of
               Inl e \<Rightarrow> renderTask E opts tasks level t st = Inl e
             | Inr x \<Rightarrow>
                 (\<exists>bb. renderTask E opts tasks level t st =
                          subtasksAndCleanup E opts level t (o1 @ o2) (st\<lparr>bottomBar := bb\<rparr>)
                    \<and> map_of bb (task_id (task_data t)) =
                        Some (case map_of (bottomBar st) (task_id (task_data t)) of
                                None \<Rightarrow> (newBar t)\<lparr>data := if isSkipped t then [] else [x]\<rparr>
                              | Some b \<Rightarrow> if x \<in> set (data b) \<or> isSkipped t then b
                                          else b\<lparr>data := data b @ [x]\<rparr>)
                    \<and> (\<forall>k. k \<noteq> task_id (task_data t) \<longrightarrow>
                          map_of bb k = map_of (bottomBar st) k))))
         \<and> (\<not> ((isPending t \<or> isRetrying t \<or> isRollingBack t) \<and> isPrompt t)
             \<and> \<not> (isBottomBar t \<or> \<not> hasTitle t)
             \<and> (isPending t \<or> isRetrying t \<or> isRollingBack t
                 \<or> opt_persistentOutput (getTaskOptions t) = Some True) \<longrightarrow>
            (case dumpData E opts st t level OutputData of
               Inl e \<Rightarrow> renderTask E opts tasks level t st = Inl e
             | Inr x \<Rightarrow>
                 renderTask E opts tasks level t st =
                   subtasksAndCleanup E opts level t (o1 @ o2 @ [x]) st))
         \<and> (\<not> ((isPending t \<or> isRetrying t \<or> isRollingBack t) \<and> isPrompt t)
             \<and> \<not> (isBottomBar t \<or> \<not> hasTitle t)
             \<and> \<not> (isPending t \<or> isRetrying t \<or> isRollingBack t
                    \<or> opt_persistentOutput (getTaskOptions t) = Some True) \<longrightarrow>
            renderTask E opts tasks level t st =
              subtasksAndCleanup E opts level t (o1 @ o2) st)"
proof -
  note run = renderTask_rest [OF assms(1) assms(3) assms(4)]
  have prompt: "renderTask E opts tasks level t st =
        subtasksAndCleanup E opts level t (o1 @ o2)
          (st\<lparr>promptBar := task_output (task_data t)\<rparr>)"
    if "(isPending t \<or> isRetrying t \<or> isRollingBack t) \<and> isPrompt t"
    using that assms(2) by (simp add: run currentTaskOutput_def isActive_def)
  have bar: "case dumpData E opts st t (- 1) OutputData of
        Inl e \<Rightarrow> renderTask E opts tasks level t st = Inl e
      | Inr x \<Rightarrow>
          (\<exists>bb. renderTask E opts tasks level t st =
                   subtasksAndCleanup E opts level t (o1 @ o2) (st\<lparr>bottomBar := bb\<rparr>)
             \<and> map_of bb (task_id (task_data t)) =
                 Some (case map_of (bottomBar st) (task_id (task_data t)) of
                         None \<Rightarrow> (newBar t)\<lparr>data := if isSkipped t then [] else [x]\<rparr>
                       | Some b \<Rightarrow> if x \<in> set (data b) \<or> isSkipped t then b
                                   else b\<lparr>data := data b @ [x]\<rparr>)
             \<and> (\<forall>k. k \<noteq> task_id (task_data t) \<longrightarrow> map_of bb k = map_of (bottomBar st) k))"
    if c: "\<not> ((isPending t \<or> isRetrying t \<or> isRollingBack t) \<and> isPrompt t)"
      and b: "isBottomBar t \<or> \<not> hasTitle t"
  proof (cases "dumpData E opts st t (- 1) OutputData")
    case (Inl e)
    with c b assms(2) show ?thesis
      by (auto simp: run currentTaskOutput_def isActive_def)
  next
    case (Inr x)
    with c b assms(2) have "renderTask E opts tasks level t st =
        subtasksAndCleanup E opts level t (o1 @ o2)
          (st\<lparr>bottomBar := pushBottomBar t x (bottomBar st)\<rparr>)"
      by (auto simp: run currentTaskOutput_def isActive_def)
    with pushBottomBar_lookup [of t x "bottomBar st"] pushBottomBar_others [of _ t x "bottomBar st"]
    show ?thesis unfolding Inr by (simp only: sum.case) blast
  qed
  have inline: "case dumpData E opts st t level OutputData of
        Inl e \<Rightarrow> renderTask E opts tasks level t st = Inl e
      | Inr x \<Rightarrow>
          renderTask E opts tasks level t st =
            subtasksAndCleanup E opts level t (o1 @ o2 @ [x]) st"
    if "\<not> ((isPending t \<or> isRetrying t \<or> isRollingBack t) \<and> isPrompt t)"
      and "\<not> (isBottomBar t \<or> \<not> hasTitle t)"
      and "isPending t \<or> isRetrying t \<or> isRollingBack t
           \<or> opt_persistentOutput (getTaskOptions t) = Some True"
    using that assms(2)
    by (auto simp: run currentTaskOutput_def isActive_def hasPersistentOutput_def
          split: sum.splits)
  have nowhere: "renderTask E opts tasks level t st =
        subtasksAndCleanup E opts level t (o1 @ o2) st"
    if "\<not> ((isPending t \<or> isRetrying t \<or> isRollingBack t) \<and> isPrompt t)"
      and "\<not> (isBottomBar t \<or> \<not> hasTitle t)"
      and "\<not> (isPending t \<or> isRetrying t \<or> isRollingBack t
              \<or> opt_persistentOutput (getTaskOptions t) = Some True)"
    using that assms(2)
    by (auto simp: run currentTaskOutput_def isActive_def hasPersistentOutput_def)
  from prompt bar inline nowhere show ?thesis by blast
qed


theorem output_routed_by_renderTask_witness:
  "isEnabled exPrompt \<and> truthy (task_output (task_data exPrompt))
   \<and> currentTaskTitle plain_env defaultRendererOptions initialState [exPrompt] exPrompt 0
       = Inr [Some ''- ask'']
   \<and> currentTaskMessage plain_env defaultRendererOptions initialState exPrompt 0 = Inr []
   \<and> (isPending exPrompt \<or> isRetrying exPrompt \<or> isRollingBack exPrompt) \<and> isPrompt exPrompt
   \<and> renderTask plain_env defaultRendererOptions [exPrompt] 0 exPrompt initialState
       = Inr ([Some ''- ask''], initialState\<lparr>promptBar := Some ''name?''\<rparr>)
   \<and> isEnabled exStream \<and> truthy (task_output (task_data exStream))
   \<and> currentTaskTitle plain_env defaultRendererOptions initialState [exStream] exStream 0
       = Inr [Some ''- stream'']
   \<and> currentTaskMessage plain_env defaultRendererOptions initialState exStream 0 = Inr []
   \<and> \<not> ((isPending exStream \<or> isRetrying exStream \<or> isRollingBack exStream)
         \<and> isPrompt exStream)
   \<and> isBottomBar exStream
   \<and> dumpData plain_env defaultRendererOptions initialState exStream (- 1) OutputData
       = Inr (Some ''* chunk'')
   \<and> (\<exists>bb. renderTask plain_env defaultRendererOptions [exStream] 0 exStream initialState
              = subtasksAndCleanup plain_env defaultRendererOptions 0 exStream
                  [Some ''- stream''] (initialState\<lparr>bottomBar := bb\<rparr>)
            \<and> map_of bb ''t5'' = Some \<lparr> data = [Some ''* chunk''], items = Some 2 \<rparr>)
   \<and> isEnabled exInline \<and> truthy (task_output (task_data exInline))
   \<and> currentTaskTitle plain_env defaultRendererOptions initialState [exInline] exInline 0
       = Inr [Some ''- compile'']
   \<and> currentTaskMessage plain_env defaultRendererOptions initialState exInline 0 = Inr []
   \<and> \<not> ((isPending exInline \<or> isRetrying exInline \<or> isRollingBack exInline)
         \<and> isPrompt exInline)
   \<and> \<not> (isBottomBar exInline \<or> \<not> hasTitle exInline)
   \<and> isPending exInline
   \<and> renderTask plain_env defaultRendererOptions [exInline] 0 exInline initialState
       = Inr ([Some ''- compile'', Some ''  * linking''], initialState)"
proof -
  have p1: "isEnabled exPrompt" and p2: "truthy (task_output (task_data exPrompt))"
    and p3: "currentTaskTitle plain_env defaultRendererOptions initialState [exPrompt] exPrompt 0
       = Inr [Some ''- ask'']"
    and p4: "currentTaskMessage plain_env defaultRendererOptions initialState exPrompt 0 = Inr []"
    and p5: "(isPending exPrompt \<or> isRetrying exPrompt \<or> isRollingBack exPrompt)
       \<and> isPrompt exPrompt"
    by code_simp+
  have p6: "subtasksAndCleanup plain_env defaultRendererOptions 0 exPrompt ([Some ''- ask''] @ [])
        (initialState\<lparr>promptBar := task_output (task_data exPrompt)\<rparr>)
      = Inr ([Some ''- ask''], initialState\<lparr>promptBar := Some ''name?''\<rparr>)"
    by code_simp
  from output_routed_by_renderTask [OF p1 p2 p3 p4] p5 p6
  have prompt: "renderTask plain_env defaultRendererOptions [exPrompt] 0 exPrompt initialState
       = Inr ([Some ''- ask''], initialState\<lparr>promptBar := Some ''name?''\<rparr>)"
    by simp
  have s1: "isEnabled exStream" and s2: "truthy (task_output (task_data exStream))"
    and s3: "currentTaskTitle plain_env defaultRendererOptions initialState [exStream] exStream 0
       = Inr [Some ''- stream'']"
    and s4: "currentTaskMessage plain_env defaultRendererOptions initialState exStream 0 = Inr []"
    and s5: "\<not> ((isPending exStream \<or> isRetrying exStream \<or> isRollingBack exStream)
         \<and> isPrompt exStream)"
    and s6: "isBottomBar exStream"
    and s7: "dumpData plain_env defaultRendererOptions initialState exStream (- 1) OutputData
       = Inr (Some ''* chunk'')"
    by code_simp+
  have s8: "task_id (task_data exStream) = ''t5''
      \<and> map_of (bottomBar initialState) ''t5'' = None
      \<and> (newBar exStream)\<lparr>data := if isSkipped exStream then [] else [Some ''* chunk'']\<rparr>
          = \<lparr> data = [Some ''* chunk''], items = Some 2 \<rparr>"
    by code_simp
  from output_routed_by_renderTask [OF s1 s2 s3 s4] s5 s6 s7 s8
  have bar: "\<exists>bb. renderTask plain_env defaultRendererOptions [exStream] 0 exStream initialState
              = subtasksAndCleanup plain_env defaultRendererOptions 0 exStream
                  [Some ''- stream''] (initialState\<lparr>bottomBar := bb\<rparr>)
            \<and> map_of bb ''t5'' = Some \<lparr> data = [Some ''* chunk''], items = Some 2 \<rparr>"
    by auto
  have i1: "isEnabled exInline" and i2: "truthy (task_output (task_data exInline))"
    and i3: "currentTaskTitle plain_env defaultRendererOptions initialState [exInline] exInline 0
       = Inr [Some ''- compile'']"
    and i4: "currentTaskMessage plain_env defaultRendererOptions initialState exInline 0 = Inr []"
    and i5: "\<not> ((isPending exInline \<or> isRetrying exInline \<or> isRollingBack exInline)
         \<and> isPrompt exInline)"
    and i6: "\<not> (isBottomBar exInline \<or> \<not> hasTitle exInline)"
    and i7: "isPending exInline"
    and i8: "dumpData plain_env defaultRendererOptions initialState exInline 0 OutputData
       = Inr (Some ''  * linking'')"
    by code_simp+
  have i9: "subtasksAndCleanup plain_env defaultRendererOptions 0 exInline
        ([Some ''- compile''] @ [] @ [Some ''  * linking'']) initialState
      = Inr ([Some ''- compile'', Some ''  * linking''], initialState)"
    by code_simp
  from output_routed_by_renderTask [OF i1 i2 i3 i4] i5 i6 i7 i8 i9
  have inline: "renderTask plain_env defaultRendererOptions [exInline] 0 exInline initialState
       = Inr ([Some ''- compile'', Some ''  * linking''], initialState)"
    by auto
  from p1 p2 p3 p4 p5 prompt s1 s2 s3 s4 s5 s6 s7 bar i1 i2 i3 i4 i5 i6 i7 inline
  show ?thesis by blast
qed

section \<open>Properties of the bottom bar\<close>

text \<open>
  C2. The claim bounds the lines a bar retains by the task's item count, and the
  documentation of the \<open>bottomBar\<close> option says that \<open>false\<close>, the default, keeps one
  line. Evaluated on two render passes of a pending task without a title that puts out
  \<open>one\<close> and then \<open>two\<close>: with \<open>bottomBar\<close> being the number 0 the bar has the item
  count 0 and holds both lines, with no \<open>bottomBar\<close> option the bar has no item count
  and holds both lines, and with \<open>bottomBar\<close> being \<open>false\<close> the bar has the item
  count 1 and holds the latest line only. \<^verbatim>\<open>slice(-0)\<close> and \<^verbatim>\<open>slice(NaN)\<close> keep the
  whole array.
\<close>

theorem bottom_bar_exceeds_item_count:
  "createRender plain_env defaultRendererOptions
       [exAnonymous (Some (BottomBarNumber 0)) ''one''] allParts initialState
     = Inr (''* one'',
            initialState\<lparr>bottomBar :=
              [(''t10'', \<lparr> data = [Some ''* one''], items = Some 0 \<rparr>)]\<rparr>)
   \<and> createRender plain_env defaultRendererOptions
       [exAnonymous (Some (BottomBarNumber 0)) ''two''] allParts
       (initialState\<lparr>bottomBar :=
          [(''t10'', \<lparr> data = [Some ''* one''], items = Some 0 \<rparr>)]\<rparr>)
     = Inr (''* one'' @ [EOL] @ ''* two'',
            initialState\<lparr>bottomBar :=
              [(''t10'', \<lparr> data = [Some ''* one'', Some ''* two''], items = Some 0 \<rparr>)]\<rparr>)
   \<and> createRender plain_env defaultRendererOptions
       [exAnonymous None ''one''] allParts initialState
     = Inr (''* one'',
            initialState\<lparr>bottomBar :=
              [(''t10'', \<lparr> data = [Some ''* one''], items = None \<rparr>)]\<rparr>)
   \<and> createRender plain_env defaultRendererOptions
       [exAnonymous None ''two''] allParts
       (initialState\<lparr>bottomBar :=
          [(''t10'', \<lparr> data = [Some ''* one''], items = None \<rparr>)]\<rparr>)
     = Inr (''* one'' @ [EOL] @ ''* two'',
            initialState\<lparr>bottomBar :=
              [(''t10'', \<lparr> data = [Some ''* one'', Some ''* two''], items = None \<rparr>)]\<rparr>)
   \<and> createRender plain_env defaultRendererOptions
       [exAnonymous (Some (BottomBarBool False)) ''one''] allParts initialState
     = Inr (''* one'',
            initialState\<lparr>bottomBar :=
              [(''t10'', \<lparr> data = [Some ''* one''], items = Some 1 \<rparr>)]\<rparr>)
   \<and> createRender plain_env defaultRendererOptions
       [exAnonymous (Some (BottomBarBool False)) ''two''] allParts
       (initialState\<lparr>bottomBar :=
          [(''t10'', \<lparr> data = [Some ''* one''], items = Some 1 \<rparr>)]\<rparr>)
     = Inr (''* two'',
            initialState\<lparr>bottomBar :=
              [(''t10'', \<lparr> data = [Some ''* two''], items = Some 1 \<rparr>)]\<rparr>)"
  by code_simp

section \<open>Properties of truncation and wrapping\<close>

lemma split_EOL_nonempty: "split_EOL s \<noteq> []"
  by (induction s) (auto split: list.splits)

lemma split_EOL_no_EOL: "EOL \<notin> set s \<Longrightarrow> split_EOL s = [s]"
  by (induction s) auto

lemma split_EOL_append: "split_EOL (a @ EOL # b) = split_EOL a @ split_EOL b"
  using split_EOL_nonempty by (induction a) (auto split: list.splits)

lemma split_EOL_join:
  "xs \<noteq> [] \<Longrightarrow> split_EOL (join_EOL xs) = concat (map split_EOL xs)"
  by (induction xs rule: join_EOL.induct) (auto simp: split_EOL_append)

lemma in_split_EOL_no_EOL: "l \<in> set (split_EOL s) \<Longrightarrow> EOL \<notin> set l"
  by (induction s arbitrary: l) (auto split: if_splits list.splits)

lemma split_EOL_chars: "\<forall>l \<in> set (split_EOL s). set l \<subseteq> set s"
proof (induction s)
  case Nil
  show ?case by simp
next
  case (Cons c cs)
  obtain l ls where rest: "split_EOL cs = l # ls"
    using split_EOL_nonempty [of cs] by (cases "split_EOL cs") auto
  from Cons.IH rest have "set l \<subseteq> set cs" and "\<forall>p \<in> set ls. set p \<subseteq> set cs"
    by auto
  with rest show ?case
    by (auto; blast)
qed

lemma in_split_EOL_chars: "l \<in> set (split_EOL s) \<Longrightarrow> set l \<subseteq> set s"
  using split_EOL_chars by blast

lemma set_js_trim: "set (js_trim s) \<subseteq> set s"
  using set_dropWhileD [of _ isWhitespace s]
    set_dropWhileD [of _ isWhitespace "rev (dropWhile isWhitespace s)"]
  by (auto simp: js_trim_def)

lemma length_js_trim: "length (js_trim s) \<le> length s"
  using length_dropWhile_le [of isWhitespace s]
    length_dropWhile_le [of isWhitespace "rev (dropWhile isWhitespace s)"]
  by (simp add: js_trim_def)

lemma EOL_not_printable: "\<not> printableChar EOL"
  by (simp add: printableChar_def EOL_def)

lemma printable_iff: "printable s \<longleftrightarrow> plainText s \<and> EOL \<notin> set s"
  using EOL_not_printable by (auto simp: printable_def plainText_def list_all_iff)

lemma printable_subset: "printable s \<Longrightarrow> set s' \<subseteq> set s \<Longrightarrow> printable s'"
  by (auto simp: printable_def list_all_iff)

lemma plainText_lines:
  assumes "plainText s" and "l \<in> set (split_EOL s)"
  shows "printable l"
  using assms in_split_EOL_chars [OF assms(2)] in_split_EOL_no_EOL [OF assms(2)]
  by (auto simp: printable_def plainText_def list_all_iff)

lemma plainText_join:
  "\<forall>p \<in> set ps. plainText p \<Longrightarrow> plainText (join_EOL ps)"
  by (induction ps rule: join_EOL.induct) (auto simp: plainText_def)

lemma fits_single: "EOL \<notin> set s \<Longrightarrow> fits w s = (int (length s) \<le> w)"
  by (simp add: fits_def split_EOL_no_EOL)

lemma fits_mono: "fits w s \<Longrightarrow> w \<le> w' \<Longrightarrow> fits w' s"
  by (auto simp: fits_def list_all_iff)

lemma fits_join:
  assumes "\<forall>p \<in> set ps. fits w p" and "0 \<le> w"
  shows "fits w (join_EOL ps)"
proof (cases "ps = []")
  case True
  with assms(2) show ?thesis by (simp add: fits_def)
next
  case False
  with assms(1) show ?thesis
    by (auto simp: fits_def split_EOL_join list_all_iff)
qed

lemma map_index_set:
  "p \<in> set (map_index f k xs) \<Longrightarrow> \<exists>x \<in> set xs. \<exists>i. p = f x i"
  by (induction xs arbitrary: k) auto

lemma map_index_rel:
  "(\<And>x i. x \<in> set xs \<Longrightarrow> R (f x i) (g x i)) \<Longrightarrow>
     list_all2 R (map_index f k xs) (map_index g k xs)"
  by (induction xs arbitrary: k) auto

text \<open>A line of plain text, prepared by trimming and the indent of a continuation line, is
  printable and at most two characters longer.\<close>

lemma indentMultilineOutput_printable:
  assumes "indentContract E" and "printable l"
  shows "printable (indentMultilineOutput E l i)
         \<and> (int (length l) \<le> w \<longrightarrow> fits (w + 2) (indentMultilineOutput E l i))"
proof -
  have tr: "printable (js_trim l)"
    using assms(2) set_js_trim [of l] by (rule printable_subset)
  then have pl: "plainText (js_trim l)" and ne: "EOL \<notin> set (js_trim l)"
    by (simp_all add: printable_iff)
  have base: "fits w (js_trim l)" if "int (length l) \<le> w"
    using that ne length_js_trim [of l] by (simp add: fits_single)
  show ?thesis
  proof (cases "i > 0")
    case True
    from assms(1) pl have c: "plainText (indentString E (js_trim l) 2)
        \<and> (EOL \<notin> set (js_trim l) \<longrightarrow> EOL \<notin> set (indentString E (js_trim l) 2))
        \<and> (\<forall>w. fits w (js_trim l) \<longrightarrow> fits (w + 2) (indentString E (js_trim l) 2))"
      unfolding indentContract_def by (metis zero_le_numeral)
    with ne base True show ?thesis
      by (auto simp: indentMultilineOutput_def printable_iff)
  next
    case False
    have "fits (w + 2) (js_trim l)" if "int (length l) \<le> w"
      using base [OF that] by (rule fits_mono) simp
    with False tr show ?thesis by (simp add: indentMultilineOutput_def)
  qed
qed

lemma printable_fits: "printable p \<Longrightarrow> fits w p = (int (length p) \<le> w)"
  by (simp add: printable_iff fits_single)

lemma formatString_wrap_fits:
  assumes nonblank: "js_trim str \<noteq> []"
    and plain: "plainText (icon @ '' '' @ str)"
    and n0: "0 \<le> level * indentation opts"
    and ic: "indentContract E"
    and wrap: "formatOutput opts = Some ''wrap''"
    and wc: "wrapContract E"
    and w1: "1 \<le> availableWidth E opts level"
  shows "\<exists>out. formatString E opts str icon level = Inr (Some out)
           \<and> fits (availableWidth E opts level + 2 + level * indentation opts) out"
proof -
  define w where "w = availableWidth E opts level"
  define lines where "lines = split_EOL (cliWrap E (icon @ '' '' @ str) w)"
  define parsed where "parsed = map_index (\<lambda>s i. indentMultilineOutput E s i) 0 lines"
  define parsed' where "parsed' =
    (if enabledOpt (removeEmptyLines opts) then filter (\<lambda>s. s \<noteq> []) parsed else parsed)"
  have out: "formatString E opts str icon level =
      Inr (Some (indentString E (join_EOL parsed') (level * indentation opts)))"
    using nonblank wrap n0
    by (simp add: formatString_def Let_def parsed'_def parsed_def lines_def w_def)
  from wc w1 plain have wrapped: "plainText (cliWrap E (icon @ '' '' @ str) w)"
      "fits w (cliWrap E (icon @ '' '' @ str) w)"
    by (simp_all add: wrapContract_def w_def)
  have line: "printable l \<and> int (length l) \<le> w" if "l \<in> set lines" for l
    using that wrapped plainText_lines [of "cliWrap E (icon @ '' '' @ str) w" l]
    by (simp add: fits_def lines_def list_all_iff)
  have each: "printable p \<and> fits (w + 2) p" if "p \<in> set parsed" for p
  proof -
    from that obtain l i where "l \<in> set lines" and "p = indentMultilineOutput E l i"
      unfolding parsed_def by (blast dest: map_index_set)
    with line indentMultilineOutput_printable [OF ic, of l i w] show ?thesis by blast
  qed
  then have all: "\<forall>p \<in> set parsed'. plainText p \<and> fits (w + 2) p"
    by (simp add: parsed'_def printable_iff)
  from w1 have "0 \<le> w + 2" by (simp add: w_def)
  with all have "fits (w + 2) (join_EOL parsed')"
    by (simp add: fits_join)
  moreover from all have "plainText (join_EOL parsed')"
    by (simp add: plainText_join)
  ultimately have "fits (w + 2 + level * indentation opts)
      (indentString E (join_EOL parsed') (level * indentation opts))"
    using ic n0 unfolding indentContract_def by blast
  with out show ?thesis by (simp add: w_def)
qed

lemma formatString_truncate_lines:
  assumes nonblank: "js_trim str \<noteq> []"
    and plain: "plainText (icon @ '' '' @ str)"
    and n0: "0 \<le> level * indentation opts"
    and ic: "indentContract E"
    and trunc: "formatOutput opts = Some ''truncate''"
    and tc: "truncateContract E"
  shows "\<exists>outs. formatString E opts str icon level =
            Inr (Some (indentString E
              (join_EOL (if enabledOpt (removeEmptyLines opts)
                         then filter (\<lambda>s. s \<noteq> []) outs else outs))
              (level * indentation opts)))
          \<and> list_all2
               (\<lambda>prepared out.
                  (2 \<le> availableWidth E opts level
                     \<and> int (length prepared) \<le> availableWidth E opts level \<longrightarrow> out = prepared)
                  \<and> (0 \<le> availableWidth E opts level
                       \<and> availableWidth E opts level < int (length prepared) \<longrightarrow>
                     int (length out) = availableWidth E opts level))
               (map_index (\<lambda>s i. indentMultilineOutput E s i) 0 (split_EOL (icon @ '' '' @ str)))
               outs"
proof -
  define w where "w = availableWidth E opts level"
  define lines where "lines = split_EOL (icon @ '' '' @ str)"
  define outs where
    "outs = map_index (\<lambda>s i. cliTruncate E (indentMultilineOutput E s i) w) 0 lines"
  have out: "formatString E opts str icon level =
      Inr (Some (indentString E
        (join_EOL (if enabledOpt (removeEmptyLines opts)
                   then filter (\<lambda>s. s \<noteq> []) outs else outs))
        (level * indentation opts)))"
    using nonblank trunc n0
    by (simp add: formatString_def Let_def outs_def lines_def w_def)
  have rel: "(2 \<le> w \<and> int (length (indentMultilineOutput E l i)) \<le> w \<longrightarrow>
        cliTruncate E (indentMultilineOutput E l i) w = indentMultilineOutput E l i)
      \<and> (0 \<le> w \<and> w < int (length (indentMultilineOutput E l i)) \<longrightarrow>
         int (length (cliTruncate E (indentMultilineOutput E l i) w)) = w)"
    if "l \<in> set lines" for l i
  proof -
    from that plain have "printable l"
      unfolding lines_def by (blast intro: plainText_lines)
    with indentMultilineOutput_printable [OF ic, of l i 0]
    have "printable (indentMultilineOutput E l i)" by blast
    with tc show ?thesis unfolding truncateContract_def by blast
  qed
  have "list_all2
      (\<lambda>prepared out.
         (2 \<le> w \<and> int (length prepared) \<le> w \<longrightarrow> out = prepared)
         \<and> (0 \<le> w \<and> w < int (length prepared) \<longrightarrow> int (length out) = w))
      (map_index (\<lambda>s i. indentMultilineOutput E s i) 0 lines) outs"
    unfolding outs_def by (rule map_index_rel) (use rel in blast)
  with out show ?thesis unfolding w_def lines_def by blast
qed


lemma formatString_truncate_single_line:
  assumes nonblank: "js_trim str \<noteq> []"
    and n0: "0 \<le> level * indentation opts"
    and trunc: "formatOutput opts = Some ''truncate''"
    and single: "EOL \<notin> set (icon @ '' '' @ str)"
  shows "formatString E opts str icon level =
      Inr (Some (indentString E
        (cliTruncate E (js_trim (icon @ '' '' @ str)) (availableWidth E opts level))
        (level * indentation opts)))"
proof -
  from single have "split_EOL (icon @ '' '' @ str) = [icon @ '' '' @ str]"
    by (rule split_EOL_no_EOL)
  with nonblank trunc n0 show ?thesis
    by (simp add: formatString_def Let_def indentMultilineOutput_def)
qed

lemma plain_truncateContract: "truncateContract plain_env"
  by (auto simp: truncateContract_def plain_env_def plain_truncate_def)

lemma chop_nonempty: "chop w k s \<noteq> []"
  by (induction s arbitrary: k) (auto split: list.splits)

lemma chop_lengths:
  assumes "0 < w" and "k \<le> w"
  shows "length (hd (chop w k s)) \<le> k \<and> (\<forall>p \<in> set (chop w k s). length p \<le> w)"
  using assms(2)
proof (induction s arbitrary: k)
  case Nil
  then show ?case by simp
next
  case (Cons c cs)
  show ?case
  proof (cases "k = 0")
    case True
    from assms(1) have "w - 1 \<le> w" by simp
    from Cons.IH [OF this] obtain l ls where "chop w (w - 1) cs = l # ls"
      and "length l \<le> w - 1" and "\<forall>p \<in> set (l # ls). length p \<le> w"
      using chop_nonempty [of w "w - 1" cs] by (cases "chop w (w - 1) cs") auto
    with True assms(1) show ?thesis by auto
  next
    case False
    with Cons.prems have "k - 1 \<le> w" by simp
    from Cons.IH [OF this] obtain l ls where "chop w (k - 1) cs = l # ls"
      and "length l \<le> k - 1" and "\<forall>p \<in> set (l # ls). length p \<le> w"
      using chop_nonempty [of w "k - 1" cs] by (cases "chop w (k - 1) cs") auto
    with False Cons.prems show ?thesis by auto
  qed
qed

lemma chop_chars: "\<forall>p \<in> set (chop w k s). set p \<subseteq> set s"
proof (induction s arbitrary: k)
  case Nil
  show ?case by simp
next
  case (Cons c cs)
  define k' where "k' = (if k = 0 then w - 1 else k - 1)"
  obtain l ls where rest: "chop w k' cs = l # ls"
    using chop_nonempty [of w k' cs] by (cases "chop w k' cs") auto
  from Cons.IH [of k'] rest have "set l \<subseteq> set cs" and "\<forall>p \<in> set ls. set p \<subseteq> set cs"
    by auto
  with rest show ?case
    by (auto simp: k'_def; blast)
qed

lemma split_EOL_join_lines:
  assumes "xs \<noteq> []" and "\<forall>x \<in> set xs. EOL \<notin> set x"
  shows "split_EOL (join_EOL xs) = xs"
proof -
  from assms(2) have "concat (map split_EOL xs) = xs"
    by (induction xs) (auto simp: split_EOL_no_EOL)
  with assms(1) show ?thesis by (simp add: split_EOL_join)
qed

lemma plain_wrapContract: "wrapContract plain_env"
  unfolding wrapContract_def
proof (intro allI impI)
  fix s :: string and w :: int
  assume a: "plainText s \<and> 1 \<le> w"
  then have w: "1 \<le> w" by simp
  define ps where "ps = concat (map (\<lambda>l. chop (nat w) (nat w) l) (split_EOL s))"
  have wrap: "cliWrap plain_env s w = join_EOL ps"
    using w by (simp add: plain_env_def plain_wrap_def ps_def)
  have ne: "ps \<noteq> []"
    using split_EOL_nonempty [of s] chop_nonempty by (cases "split_EOL s") (auto simp: ps_def)
  have piece: "printable p \<and> int (length p) \<le> w" if "p \<in> set ps" for p
  proof -
    from that obtain l where l: "l \<in> set (split_EOL s)" and p: "p \<in> set (chop (nat w) (nat w) l)"
      by (auto simp: ps_def)
    from a l have "printable l" by (blast intro: plainText_lines)
    with chop_chars [of "nat w" "nat w" l] p have "printable p"
      by (blast intro: printable_subset)
    moreover from w chop_lengths [of "nat w" "nat w" l] p have "length p \<le> nat w" by simp
    ultimately show ?thesis using w by simp
  qed
  then have "split_EOL (join_EOL ps) = ps"
    using ne by (simp add: split_EOL_join_lines printable_iff)
  with piece have "fits w (cliWrap plain_env s w)"
    by (simp add: wrap fits_def list_all_iff)
  moreover from piece have "plainText (cliWrap plain_env s w)"
    by (simp add: wrap plainText_join printable_iff)
  ultimately show "plainText (cliWrap plain_env s w) \<and> fits w (cliWrap plain_env s w)"
    by simp
qed

lemma plain_indentContract: "indentContract plain_env"
  unfolding indentContract_def
proof (intro allI impI)
  fix s :: string and n :: int
  assume a: "plainText s \<and> 0 \<le> n"
  define g where "g = (\<lambda>l. if js_trim l = [] then l else replicate (nat n) CHR '' '' @ l)"
  have ind: "indentString plain_env s n = join_EOL (map g (split_EOL s))"
    by (simp add: plain_env_def plain_indent_def g_def)
  have space: "printableChar CHR '' ''"
    by (simp add: printableChar_def)
  have line: "printable (g l) \<and> int (length (g l)) \<le> int (length l) + n"
    if "l \<in> set (split_EOL s)" for l
  proof -
    from a that have "printable l" by (blast intro: plainText_lines)
    with space a show ?thesis by (auto simp: g_def printable_def list_all_iff)
  qed
  then have lines: "split_EOL (join_EOL (map g (split_EOL s))) = map g (split_EOL s)"
    using split_EOL_nonempty [of s] by (simp add: split_EOL_join_lines printable_iff)
  have p1: "plainText (indentString plain_env s n)"
    using line by (simp add: ind plainText_join printable_iff)
  have p2: "EOL \<notin> set (indentString plain_env s n)" if "EOL \<notin> set s"
  proof -
    from that have "split_EOL s = [s]" by (rule split_EOL_no_EOL)
    with line [of s] show ?thesis by (simp add: ind printable_iff)
  qed
  have p3: "fits (w + n) (indentString plain_env s n)" if "fits w s" for w
    using that line by (fastforce simp: ind lines fits_def list_all_iff)
  from p1 p2 p3
  show "plainText (indentString plain_env s n)
      \<and> (EOL \<notin> set s \<longrightarrow> EOL \<notin> set (indentString plain_env s n))
      \<and> (\<forall>w. fits w s \<longrightarrow> fits (w + n) (indentString plain_env s n))"
    by blast
qed

lemma narrow_env_contracts:
  "truncateContract narrow_env \<and> wrapContract narrow_env \<and> indentContract narrow_env"
  using plain_truncateContract plain_wrapContract plain_indentContract
  by (simp add: truncateContract_def wrapContract_def indentContract_def narrow_env_def)

text \<open>
  C1 (as stated, refuted). On 80 columns and with \<open>truncate\<close>, the text \<open>done\<close>
  followed by a space is shorter than the available width with its icon, yet it is not
  returned unmodified: the space is trimmed; and of two lines with a blank line between
  them the blank line is dropped. On 12 columns and with \<open>wrap\<close>, the available width
  at level 0 is 10, and the second line of the output has 12 characters: a wrapped line is
  indented by 2 after the wrapping.
\<close>

theorem formatString_trims_and_wrap_exceeds_available_width:
  "int (length (''+'' @ '' '' @ ''done '')) < availableWidth plain_env defaultRendererOptions 0
   \<and> formatString plain_env defaultRendererOptions ''done '' ''+'' 0 = Inr (Some ''+ done'')
   \<and> int (length (''+'' @ '' '' @ (''one'' @ [EOL, EOL] @ ''two'')))
        < availableWidth plain_env defaultRendererOptions 0
   \<and> formatString plain_env defaultRendererOptions (''one'' @ [EOL, EOL] @ ''two'') ''+'' 0
        = Inr (Some (''+ one'' @ [EOL] @ ''  two''))
   \<and> availableWidth narrow_env wrapOptions 0 = 10
   \<and> formatString narrow_env wrapOptions ''abcdefghijklmnopqr'' ''+'' 0
        = Inr (Some (''+ abcdefgh'' @ [EOL] @ ''  ijklmnopqr''))
   \<and> \<not> fits 10 (''+ abcdefgh'' @ [EOL] @ ''  ijklmnopqr'')
   \<and> length ''  ijklmnopqr'' = 12"
  by code_simp

text \<open>
  C1 (amended). For an input that is not blank and plain text with its icon, a level's
  indentation that is not negative, and primitives that keep their promises. With
  \<open>truncate\<close>, every line of the icon-prefixed text is prepared (trimmed, and indented
  by 2 from the second line on) and then truncated to the available width (the terminal's
  columns minus level times indentation minus 2): a prepared line that fits a width of at
  least 2 is kept as it is, and one that is longer than a width of at least 0 becomes
  exactly that wide; the lines that are left, without the empty ones under
  \<open>removeEmptyLines\<close>, are joined and put under the level's indentation. For a text of
  one line this is the trimmed text itself, or a cut of exactly the available width, under
  the level's indentation. With \<open>wrap\<close> and an available width of at least 1, no line
  of the result is longer than the terminal's columns, which is the available width plus 2
  plus the level's indentation.
\<close>

theorem formatString_truncate_and_wrap_widths:
  assumes "js_trim str \<noteq> []"
    and "plainText (icon @ '' '' @ str)"
    and "0 \<le> level * indentation opts"
    and "indentContract E"
  shows "(formatOutput opts = Some ''truncate'' \<and> truncateContract E \<longrightarrow>
          (\<exists>outs. formatString E opts str icon level =
               Inr (Some (indentString E
                 (join_EOL (if enabledOpt (removeEmptyLines opts)
                            then filter (\<lambda>s. s \<noteq> []) outs else outs))
                 (level * indentation opts)))
             \<and> list_all2
                  (\<lambda>prepared out.
                     (2 \<le> availableWidth E opts level
                        \<and> int (length prepared) \<le> availableWidth E opts level \<longrightarrow>
                      out = prepared)
                     \<and> (0 \<le> availableWidth E opts level
                          \<and> availableWidth E opts level < int (length prepared) \<longrightarrow>
                        int (length out) = availableWidth E opts level))
                  (map_index (\<lambda>s i. indentMultilineOutput E s i) 0
                     (split_EOL (icon @ '' '' @ str)))
                  outs)
          \<and> (EOL \<notin> set (icon @ '' '' @ str) \<longrightarrow>
               (2 \<le> availableWidth E opts level
                  \<and> int (length (js_trim (icon @ '' '' @ str))) \<le> availableWidth E opts level \<longrightarrow>
                formatString E opts str icon level =
                  Inr (Some (indentString E (js_trim (icon @ '' '' @ str))
                               (level * indentation opts))))
               \<and> (0 \<le> availableWidth E opts level
                    \<and> availableWidth E opts level
                        < int (length (js_trim (icon @ '' '' @ str))) \<longrightarrow>
                  (\<exists>cut. int (length cut) = availableWidth E opts level
                     \<and> formatString E opts str icon level =
                         Inr (Some (indentString E cut (level * indentation opts)))))))
         \<and> (formatOutput opts = Some ''wrap'' \<and> wrapContract E
              \<and> 1 \<le> availableWidth E opts level \<longrightarrow>
            (\<exists>out. formatString E opts str icon level = Inr (Some out)
               \<and> fits (terminalColumns E) out
               \<and> terminalColumns E
                   = availableWidth E opts level + 2 + level * indentation opts))"
proof -
  have single: "(2 \<le> availableWidth E opts level
             \<and> int (length (js_trim (icon @ '' '' @ str))) \<le> availableWidth E opts level \<longrightarrow>
           formatString E opts str icon level =
             Inr (Some (indentString E (js_trim (icon @ '' '' @ str))
                          (level * indentation opts))))
          \<and> (0 \<le> availableWidth E opts level
               \<and> availableWidth E opts level < int (length (js_trim (icon @ '' '' @ str))) \<longrightarrow>
             (\<exists>cut. int (length cut) = availableWidth E opts level
                \<and> formatString E opts str icon level =
                    Inr (Some (indentString E cut (level * indentation opts)))))"
    if tr: "formatOutput opts = Some ''truncate''" and tc: "truncateContract E"
      and one: "EOL \<notin> set (icon @ '' '' @ str)"
  proof -
    note line = formatString_truncate_single_line [OF assms(1) assms(3) tr one, of E]
    from assms(2) one have "printable (icon @ '' '' @ str)"
      by (simp add: printable_iff)
    then have pr: "printable (js_trim (icon @ '' '' @ str))"
      using set_js_trim by (rule printable_subset)
    have same: "cliTruncate E (js_trim (icon @ '' '' @ str)) (availableWidth E opts level)
        = js_trim (icon @ '' '' @ str)"
      if "2 \<le> availableWidth E opts level"
        and "int (length (js_trim (icon @ '' '' @ str))) \<le> availableWidth E opts level"
      using tc pr that unfolding truncateContract_def by blast
    have cut: "int (length (cliTruncate E (js_trim (icon @ '' '' @ str))
          (availableWidth E opts level))) = availableWidth E opts level"
      if "0 \<le> availableWidth E opts level"
        and "availableWidth E opts level < int (length (js_trim (icon @ '' '' @ str)))"
      using tc pr that unfolding truncateContract_def by blast
    from line same cut show ?thesis by auto
  qed
  have wrap: "\<exists>out. formatString E opts str icon level = Inr (Some out)
               \<and> fits (terminalColumns E) out
               \<and> terminalColumns E
                   = availableWidth E opts level + 2 + level * indentation opts"
    if "formatOutput opts = Some ''wrap''" and "wrapContract E"
      and "1 \<le> availableWidth E opts level"
  proof -
    have cols: "terminalColumns E = availableWidth E opts level + 2 + level * indentation opts"
      by (simp add: availableWidth_def)
    from formatString_wrap_fits [OF assms that] cols show ?thesis by simp
  qed
  from formatString_truncate_lines [OF assms] single wrap show ?thesis by blast
qed


theorem formatString_truncate_and_wrap_widths_witness:
  "js_trim ''done '' \<noteq> []
   \<and> plainText (''+'' @ '' '' @ ''done '')
   \<and> 0 \<le> 1 * indentation defaultRendererOptions
   \<and> EOL \<notin> set (''+'' @ '' '' @ ''done '')
   \<and> availableWidth plain_env defaultRendererOptions 1 = 76
   \<and> js_trim (''+'' @ '' '' @ ''done '') = ''+ done''
   \<and> formatString plain_env defaultRendererOptions ''done '' ''+'' 1 = Inr (Some ''  + done'')
   \<and> js_trim (''one'' @ [EOL] @ ''abcdefghijklmnop'') \<noteq> []
   \<and> plainText (''+'' @ '' '' @ (''one'' @ [EOL] @ ''abcdefghijklmnop''))
   \<and> availableWidth narrow_env defaultRendererOptions 0 = 10
   \<and> map_index (\<lambda>s i. indentMultilineOutput narrow_env s i) 0
        (split_EOL (''+'' @ '' '' @ (''one'' @ [EOL] @ ''abcdefghijklmnop'')))
       = [''+ one'', ''  abcdefghijklmnop'']
   \<and> (\<exists>out. formatString narrow_env defaultRendererOptions
                (''one'' @ [EOL] @ ''abcdefghijklmnop'') ''+'' 0
              = Inr (Some (indentString narrow_env (join_EOL [''+ one'', out]) 0))
            \<and> int (length out) = 10)
   \<and> (\<exists>out. formatString narrow_env wrapOptions ''abcdefghijklmnopqr'' ''+'' 0 = Inr (Some out)
         \<and> fits 12 out)"
proof -
  have n1: "js_trim ''done '' \<noteq> []"
    by code_simp
  have p1: "plainText (''+'' @ '' '' @ ''done '')"
    by code_simp
  have c1: "0 \<le> 1 * indentation defaultRendererOptions"
    by code_simp
  have f1: "formatOutput defaultRendererOptions = Some ''truncate''
      \<and> EOL \<notin> set (''+'' @ '' '' @ ''done '')
      \<and> availableWidth plain_env defaultRendererOptions 1 = 76
      \<and> js_trim (''+'' @ '' '' @ ''done '') = ''+ done''
      \<and> indentString plain_env ''+ done'' (1 * indentation defaultRendererOptions) = ''  + done''"
    by code_simp
  from formatString_truncate_and_wrap_widths [OF n1 p1 c1 plain_indentContract]
    plain_truncateContract f1
  have fit: "formatString plain_env defaultRendererOptions ''done '' ''+'' 1
      = Inr (Some ''  + done'')"
    by simp
  have n2: "js_trim (''one'' @ [EOL] @ ''abcdefghijklmnop'') \<noteq> []"
    by code_simp
  have p2: "plainText (''+'' @ '' '' @ (''one'' @ [EOL] @ ''abcdefghijklmnop''))"
    by code_simp
  have c2: "0 \<le> 0 * indentation defaultRendererOptions"
    by simp
  have f2: "formatOutput defaultRendererOptions = Some ''truncate''
      \<and> enabledOpt (removeEmptyLines defaultRendererOptions)
      \<and> availableWidth narrow_env defaultRendererOptions 0 = 10
      \<and> map_index (\<lambda>s i. indentMultilineOutput narrow_env s i) 0
           (split_EOL (''+'' @ '' '' @ (''one'' @ [EOL] @ ''abcdefghijklmnop'')))
          = [''+ one'', ''  abcdefghijklmnop'']"
    by code_simp
  from formatString_truncate_and_wrap_widths
    [OF n2 p2 c2 conjunct2 [OF conjunct2 [OF narrow_env_contracts]]]
    conjunct1 [OF narrow_env_contracts] f2
  obtain outs where run: "formatString narrow_env defaultRendererOptions
        (''one'' @ [EOL] @ ''abcdefghijklmnop'') ''+'' 0
      = Inr (Some (indentString narrow_env (join_EOL (filter (\<lambda>s. s \<noteq> []) outs))
                     (0 * indentation defaultRendererOptions)))"
    and rel: "list_all2
        (\<lambda>prepared out.
           (int (length prepared) \<le> 10 \<longrightarrow> out = prepared)
           \<and> (10 < int (length prepared) \<longrightarrow> int (length out) = 10))
        [''+ one'', ''  abcdefghijklmnop''] outs"
    by auto
  from rel obtain out where outs: "outs = [''+ one'', out]" and len: "int (length out) = 10"
    by (auto simp: list_all2_Cons1)
  from len have "out \<noteq> []" by auto
  with run outs len
  have cut: "\<exists>out. formatString narrow_env defaultRendererOptions
        (''one'' @ [EOL] @ ''abcdefghijklmnop'') ''+'' 0
      = Inr (Some (indentString narrow_env (join_EOL [''+ one'', out]) 0))
      \<and> int (length out) = 10"
    by auto
  have n3: "js_trim ''abcdefghijklmnopqr'' \<noteq> []"
    by code_simp
  have p3: "plainText (''+'' @ '' '' @ ''abcdefghijklmnopqr'')"
    by code_simp
  have c3: "0 \<le> 0 * indentation wrapOptions"
    by simp
  have f3: "formatOutput wrapOptions = Some ''wrap''
      \<and> availableWidth narrow_env wrapOptions 0 = 10
      \<and> terminalColumns narrow_env = 12"
    by code_simp
  from formatString_truncate_and_wrap_widths
    [OF n3 p3 c3 conjunct2 [OF conjunct2 [OF narrow_env_contracts]]]
    narrow_env_contracts f3
  have wrapped: "\<exists>out. formatString narrow_env wrapOptions ''abcdefghijklmnopqr'' ''+'' 0
      = Inr (Some out) \<and> fits 12 out"
    by simp
  from n1 p1 c1 f1 fit n2 p2 f2 cut wrapped show ?thesis by blast
qed

end
